theory Spec2Isabelle
  imports Main "HOL-Library.Multiset"
begin

section \<open>JavaScript values and completions\<close>

text \<open>
  A JavaScript string is modelled as a \<^typ>\<open>string\<close>: one \<^typ>\<open>char\<close> per UTF-16 code
  unit, for the strings whose code units are all below 256. On these strings the
  \<^verbatim>\<open>length\<close> property is \<^const>\<open>length\<close> and \<^verbatim>\<open>===\<close> is equality.

  A value that may be \<^verbatim>\<open>null\<close> (the result of \<^verbatim>\<open>getElementById\<close>, \<^verbatim>\<open>querySelector\<close>
  or \<^verbatim>\<open>getAttribute\<close>) is an \<^typ>\<open>'a option\<close>. Reading or writing a property of
  \<^verbatim>\<open>null\<close> throws a \<^verbatim>\<open>TypeError\<close>; the statements run before the throw have already
  changed the page, so an abrupt completion carries the page as it was left.
\<close>

datatype js_error = TypeError

datatype 'a completion = Normal 'a | Throw js_error 'a

fun state_of :: "'a completion \<Rightarrow> 'a" where
  "state_of (Normal s) = s"
| "state_of (Throw e s) = s"

fun throws :: "'a completion \<Rightarrow> bool" where
  "throws (Normal s) = False"
| "throws (Throw e s) = True"

text \<open>
  The decimal digits of a count, as the template literal \<^verbatim>\<open>${visibleCount}\<close> prints a
  non-negative integer. (A counter that is incremented once per table row stays far
  below \<open>2\<^sup>5\<^sup>3\<close>, the range in which a JavaScript number counts exactly and prints
  as plain decimal digits.)
\<close>

definition digit_char :: "nat \<Rightarrow> char" where
  "digit_char d = ''0123456789'' ! d"

function string_of_nat :: "nat \<Rightarrow> string" where
  "string_of_nat n =
     (if n < 10 then [digit_char n]
      else string_of_nat (n div 10) @ [digit_char (n mod 10)])"
  by pat_completeness auto
termination
  by (relation "measure id") auto

declare string_of_nat.simps [simp del]

text \<open>Reading a decimal numeral back, to state that the printed count determines the count.\<close>

definition digit_val :: "char \<Rightarrow> nat" where
  "digit_val c = of_char c - 48"

definition nat_of_string :: "string \<Rightarrow> nat" where
  "nat_of_string s = foldl (\<lambda>acc c. 10 * acc + digit_val c) 0 s"

section \<open>The annotation table filter (gene\_detail.js)\<close>

text \<open>
  The part of the page that \<^verbatim>\<open>filterAnnotations\<close> touches. A field named after an element id
  is \<^const>\<open>None\<close> when \<^verbatim>\<open>getElementById\<close> finds no such element. The two selects are
  read through \<^verbatim>\<open>.value\<close>, the badge is written through \<^verbatim>\<open>.innerText\<close>, and the rows
  are the node list of \<^verbatim>\<open>querySelectorAll('.annotations-table tbody tr')\<close> in document
  order: the empty list when the table is absent. Of a row the function reads the two
  \<^verbatim>\<open>data-\<close> attributes (\<^verbatim>\<open>getAttribute\<close> gives \<^verbatim>\<open>null\<close> for a missing one) and writes
  \<^verbatim>\<open>style.display\<close>. The properties read and the properties written are different ones,
  so the rows are kept by value.
\<close>

record row =
  data_aspect :: "string option"
  data_evidence :: "string option"
  style_display :: string

record gene_detail_page =
  aspectFilter :: "string option"
  evidenceFilter :: "string option"
  tableRows :: "row list"
  filteredCountBadge :: "string option"

definition experimental :: "string list" where
  "experimental =
     [''EXP'', ''IDA'', ''IPI'', ''IMP'', ''IGI'', ''IEP'', ''HTP'', ''HDA'', ''HMP'', ''HGI'', ''HEP'']"

definition computational :: "string list" where
  "computational = [''ISS'', ''ISO'', ''ISA'', ''ISM'', ''IGC'', ''RCA'']"

definition electronic :: "string list" where
  "electronic = [''IEA'']"

text \<open>\<^verbatim>\<open>Array.prototype.includes\<close> on an array of strings: \<^verbatim>\<open>null\<close> is never included.\<close>

fun array_includes :: "string list \<Rightarrow> string option \<Rightarrow> bool" where
  "array_includes xs None = False"
| "array_includes xs (Some s) = (s \<in> set xs)"

definition aspectMatch :: "string \<Rightarrow> string option \<Rightarrow> bool" where
  "aspectMatch aspect rowAspect = (aspect = ''all'' \<or> rowAspect = Some aspect)"

definition evidenceMatch :: "string \<Rightarrow> string option \<Rightarrow> bool" where
  "evidenceMatch evidenceType rowEvidence =
     (if evidenceType = ''all'' then True
      else if evidenceType = ''EXP'' then array_includes experimental rowEvidence
      else if evidenceType = ''COMP'' then array_includes computational rowEvidence
      else if evidenceType = ''IEA'' then array_includes electronic rowEvidence
      else if evidenceType = ''OTHER'' then
        \<not> array_includes experimental rowEvidence \<and>
        \<not> array_includes computational rowEvidence \<and>
        \<not> array_includes electronic rowEvidence
      else False)"

text \<open>
  The body of \<^verbatim>\<open>rows.forEach\<close>, with the counter \<^verbatim>\<open>visibleCount\<close> as an accumulator:
  the result is the rows with their \<^verbatim>\<open>style.display\<close> set, and the final counter.
\<close>

fun forEach_row :: "string \<Rightarrow> string \<Rightarrow> row list \<Rightarrow> nat \<Rightarrow> row list \<times> nat" where
  "forEach_row aspect evidenceType [] visibleCount = ([], visibleCount)"
| "forEach_row aspect evidenceType (r # rs) visibleCount =
     (if aspectMatch aspect (data_aspect r) \<and> evidenceMatch evidenceType (data_evidence r)
      then (case forEach_row aspect evidenceType rs (visibleCount + 1) of
              (rs', n) \<Rightarrow> (r\<lparr>style_display := ''''\<rparr> # rs', n))
      else (case forEach_row aspect evidenceType rs visibleCount of
              (rs', n) \<Rightarrow> (r\<lparr>style_display := ''none''\<rparr> # rs', n)))"

definition filterAnnotations :: "gene_detail_page \<Rightarrow> gene_detail_page completion" where
  "filterAnnotations p =
     (case aspectFilter p of
        None \<Rightarrow> Throw TypeError p
      | Some aspect \<Rightarrow>
     (case evidenceFilter p of
        None \<Rightarrow> Throw TypeError p
      | Some evidenceType \<Rightarrow>
     (case forEach_row aspect evidenceType (tableRows p) 0 of
        (rows', visibleCount) \<Rightarrow>
     (case filteredCountBadge p of
        None \<Rightarrow> Throw TypeError (p\<lparr>tableRows := rows'\<rparr>)
      | Some old \<Rightarrow>
          Normal (p\<lparr>tableRows := rows',
                    filteredCountBadge :=
                      Some (''Showing '' @ string_of_nat visibleCount @ '' terms'')\<rparr>)))))"

subsection \<open>The filter as the specification words it\<close>

definition ExperimentalSet :: "string set" where
  "ExperimentalSet =
     {''EXP'', ''IDA'', ''IPI'', ''IMP'', ''IGI'', ''IEP'', ''HTP'', ''HDA'', ''HMP'', ''HGI'', ''HEP''}"

definition ComputationalSet :: "string set" where
  "ComputationalSet = {''ISS'', ''ISO'', ''ISA'', ''ISM'', ''IGC'', ''RCA''}"

definition ElectronicSet :: "string set" where
  "ElectronicSet = {''IEA''}"

definition code_in :: "string set \<Rightarrow> row \<Rightarrow> bool" where
  "code_in S r = (case data_evidence r of None \<Rightarrow> False | Some c \<Rightarrow> c \<in> S)"

definition spec_visible :: "string \<Rightarrow> string \<Rightarrow> row \<Rightarrow> bool" where
  "spec_visible aspect evidenceType r =
     ((aspect = ''all'' \<or> data_aspect r = Some aspect) \<and>
      (evidenceType = ''all'' \<or>
       evidenceType = ''EXP'' \<and> code_in ExperimentalSet r \<or>
       evidenceType = ''COMP'' \<and> code_in ComputationalSet r \<or>
       evidenceType = ''IEA'' \<and> code_in ElectronicSet r \<or>
       evidenceType = ''OTHER'' \<and>
         \<not> code_in (ExperimentalSet \<union> ComputationalSet \<union> ElectronicSet) r))"

text \<open>The predicate that the loop body computes for a row.\<close>

definition row_visible :: "string \<Rightarrow> string \<Rightarrow> row \<Rightarrow> bool" where
  "row_visible aspect evidenceType r =
     (aspectMatch aspect (data_aspect r) \<and> evidenceMatch evidenceType (data_evidence r))"

subsection \<open>Example pages\<close>

text \<open>
  Two rows under the selectors \<^verbatim>\<open>all\<close> / \<^verbatim>\<open>EXP\<close>, on a page without a count badge.
\<close>

definition page_exp :: gene_detail_page where
  "page_exp =
     \<lparr>aspectFilter = Some ''all'', evidenceFilter = Some ''EXP'',
      tableRows = [\<lparr>data_aspect = Some ''BP'', data_evidence = Some ''IDA'', style_display = ''none''\<rparr>,
                   \<lparr>data_aspect = Some ''BP'', data_evidence = Some ''IEA'', style_display = ''''\<rparr>],
      filteredCountBadge = None\<rparr>"

text \<open>Rows of the aspects BP, CC, CC under the selectors \<^verbatim>\<open>CC\<close> / \<^verbatim>\<open>all\<close>.\<close>

definition page_cc :: gene_detail_page where
  "page_cc =
     \<lparr>aspectFilter = Some ''CC'', evidenceFilter = Some ''all'',
      tableRows = [\<lparr>data_aspect = Some ''BP'', data_evidence = Some ''IDA'', style_display = ''''\<rparr>,
                   \<lparr>data_aspect = Some ''CC'', data_evidence = Some ''ISS'', style_display = ''''\<rparr>,
                   \<lparr>data_aspect = Some ''CC'', data_evidence = Some ''IEA'', style_display = ''none''\<rparr>],
      filteredCountBadge = Some ''''\<rparr>"

text \<open>An evidence selector holding a value that none of the five branches tests for.\<close>

definition page_unknown :: gene_detail_page where
  "page_unknown =
     \<lparr>aspectFilter = Some ''all'', evidenceFilter = Some ''TAS'',
      tableRows = [\<lparr>data_aspect = Some ''BP'', data_evidence = Some ''IDA'', style_display = ''''\<rparr>,
                   \<lparr>data_aspect = Some ''MF'', data_evidence = Some ''TAS'', style_display = ''''\<rparr>],
      filteredCountBadge = Some ''Showing 2 terms''\<rparr>"

section \<open>The document of the similarity page\<close>

text \<open>
  The scripts \<^verbatim>\<open>autocomplete.js\<close> and \<^verbatim>\<open>similarity.js\<close> share elements (the submit
  listener reads the fields that the autocomplete listeners write), so the elements
  live in a store addressed by element references, and a listener's closure holds the
  references it captured. Of an element the scripts use \<^verbatim>\<open>.value\<close>, the child nodes
  (written through \<^verbatim>\<open>.innerHTML\<close> and \<^verbatim>\<open>appendChild\<close>), \<^verbatim>\<open>.classList\<close> and the attribute
  \<^verbatim>\<open>required\<close>.
\<close>

type_synonym ref = nat

text \<open>The entries of a search response: \<^verbatim>\<open>{id, name, namespace}\<close> and \<^verbatim>\<open>{symbol, name}\<close>.\<close>

record term_result =
  term_id :: string
  term_name :: string
  term_namespace :: string

record gene_result =
  gene_symbol :: string
  gene_name :: string

text \<open>
  The click listener of a rendered entry is a closure over the elements of its
  dispatcher and over the entry it was created for.
\<close>

datatype on_click =
    SelectTerm ref ref ref term_result
  | SelectGene ref ref gene_result

record anchor =
  href :: string
  anchor_innerHTML :: string
  click_listener :: on_click

text \<open>
  A child node is an \<^verbatim>\<open>a\<close> element created by a dispatcher, or the nodes that the
  browser parses from an HTML string assigned to \<^verbatim>\<open>innerHTML\<close>. Assigning the empty
  string leaves no child.
\<close>

datatype node = Anchor anchor | Markup string

record element =
  el_value :: string
  el_children :: "node list"
  el_classList :: "string list"
  el_required :: "string option"

text \<open>
  The document: \<^verbatim>\<open>getElementById\<close>, the element store, and the results of the selector
  queries that \<^verbatim>\<open>similarity.js\<close> makes:
  \<^verbatim>\<open>querySelectorAll('input[name="mode"]')\<close>,
  \<^verbatim>\<open>querySelector('input[name="mode"]:checked')\<close>,
  \<^verbatim>\<open>container.querySelectorAll('input[type="text"]')\<close> for a container,
  \<^verbatim>\<open>querySelector('input[name="gene_list_query"]')\<close> and
  \<^verbatim>\<open>querySelector('.similarity-form')\<close>.
\<close>

record document =
  getElementById :: "string \<Rightarrow> ref option"
  elements :: "ref \<Rightarrow> element"
  modeRadios :: "ref list"
  checkedMode :: "ref option"
  textInputs :: "ref \<Rightarrow> ref list"
  geneListInput :: "ref option"
  similarityForm :: "ref option"

definition set_value :: "ref \<Rightarrow> string \<Rightarrow> document \<Rightarrow> document" where
  "set_value r v d = d\<lparr>elements := (elements d)(r := (elements d r)\<lparr>el_value := v\<rparr>)\<rparr>"

text \<open>
  Assigning to \<^verbatim>\<open>.value\<close> of an input of type \<^verbatim>\<open>text\<close> runs the value sanitisation of
  such inputs: every line feed and carriage return is dropped from the string assigned.
  The query fields are text inputs (\<^verbatim>\<open>similarity.js\<close> collects them with
  \<^verbatim>\<open>input[type="text"]\<close>, and they receive the \<^verbatim>\<open>input\<close> events). The identifier fields
  are hidden inputs (``the hidden ID'' in the words of \<^verbatim>\<open>autocomplete.js\<close>), whose value
  setter stores the string as it is: for them \<^const>\<open>set_value\<close> is the setter.
\<close>

definition strip_newlines :: "string \<Rightarrow> string" where
  "strip_newlines v = filter (\<lambda>c. c \<noteq> CHR 0x0A \<and> c \<noteq> CHR 0x0D) v"

definition set_text_value :: "ref \<Rightarrow> string \<Rightarrow> document \<Rightarrow> document" where
  "set_text_value r v d = set_value r (strip_newlines v) d"

definition set_children :: "ref \<Rightarrow> node list \<Rightarrow> document \<Rightarrow> document" where
  "set_children r ns d = d\<lparr>elements := (elements d)(r := (elements d r)\<lparr>el_children := ns\<rparr>)\<rparr>"

definition appendChild :: "ref \<Rightarrow> node \<Rightarrow> document \<Rightarrow> document" where
  "appendChild r n d = set_children r (el_children (elements d r) @ [n]) d"

definition classList_add :: "ref \<Rightarrow> string \<Rightarrow> document \<Rightarrow> document" where
  "classList_add r c d =
     (if c \<in> set (el_classList (elements d r)) then d
      else d\<lparr>elements := (elements d)
             (r := (elements d r)\<lparr>el_classList := el_classList (elements d r) @ [c]\<rparr>)\<rparr>)"

definition classList_remove :: "ref \<Rightarrow> string \<Rightarrow> document \<Rightarrow> document" where
  "classList_remove r c d =
     d\<lparr>elements := (elements d)
        (r := (elements d r)\<lparr>el_classList := filter (\<lambda>x. x \<noteq> c) (el_classList (elements d r))\<rparr>)\<rparr>"

definition setAttribute_required :: "ref \<Rightarrow> string \<Rightarrow> document \<Rightarrow> document" where
  "setAttribute_required r v d =
     d\<lparr>elements := (elements d)(r := (elements d r)\<lparr>el_required := Some v\<rparr>)\<rparr>"

definition removeAttribute_required :: "ref \<Rightarrow> document \<Rightarrow> document" where
  "removeAttribute_required r d =
     d\<lparr>elements := (elements d)(r := (elements d r)\<lparr>el_required := None\<rparr>)\<rparr>"

section \<open>Timers and requests\<close>

text \<open>
  \<^verbatim>\<open>encodeURIComponent\<close> on code units below 256: the unreserved characters stand for
  themselves, and every other code unit is written as the percent-escaped bytes of its
  UTF-8 encoding (one byte below 128, two bytes from 128 on).
\<close>

definition uriUnreserved :: string where
  "uriUnreserved =
     ''ABCDEFGHIJKLMNOPQRSTUVWXYZabcdefghijklmnopqrstuvwxyz0123456789-_.!~*()'' @ [CHR 0x27]"

definition hexDigit :: "nat \<Rightarrow> char" where
  "hexDigit n = ''0123456789ABCDEF'' ! n"

definition percentByte :: "nat \<Rightarrow> string" where
  "percentByte b = [CHR ''%'', hexDigit (b div 16), hexDigit (b mod 16)]"

definition encodeUnit :: "char \<Rightarrow> string" where
  "encodeUnit c =
     (if c \<in> set uriUnreserved then [c]
      else if (of_char c :: nat) < 128 then percentByte (of_char c)
      else percentByte (192 + of_char c div 64) @ percentByte (128 + of_char c mod 64))"

definition encodeURIComponent :: "string \<Rightarrow> string" where
  "encodeURIComponent s = concat (map encodeUnit s)"

text \<open>
  The function passed to \<^verbatim>\<open>setTimeout\<close> is a closure over the elements of its dispatcher
  and over the query text read when it was scheduled.
\<close>

datatype lookup =
    TermLookup ref ref ref string
  | GeneLookup ref ref string

record timer =
  handle :: nat
  due :: nat
  callback :: lookup

text \<open>
  The browser around the scripts: the document, a clock in milliseconds, the timers
  that are scheduled and have not fired, the next timer handle, and the URLs passed to
  \<^verbatim>\<open>fetch\<close> so far, oldest first.
\<close>

record world =
  doc :: document
  now :: nat
  nextHandle :: nat
  timers :: "timer list"
  fetched :: "string list"

text \<open>
  \<^verbatim>\<open>setTimeout\<close> returns a fresh handle; \<^verbatim>\<open>clearTimeout\<close> of \<^verbatim>\<open>undefined\<close>, or of a
  handle whose timer has fired, does nothing.
\<close>

definition setTimeout :: "lookup \<Rightarrow> nat \<Rightarrow> world \<Rightarrow> nat \<times> world" where
  "setTimeout f delay w =
     (nextHandle w,
      w\<lparr>timers := timers w @ [\<lparr>handle = nextHandle w, due = now w + delay, callback = f\<rparr>],
        nextHandle := nextHandle w + 1\<rparr>)"

fun clearTimeout :: "nat option \<Rightarrow> world \<Rightarrow> world" where
  "clearTimeout None w = w"
| "clearTimeout (Some h) w = w\<lparr>timers := filter (\<lambda>x. handle x \<noteq> h) (timers w)\<rparr>"

text \<open>What a timer does when it fires: one call of \<^verbatim>\<open>fetch\<close>.\<close>

fun run_callback :: "lookup \<Rightarrow> world \<Rightarrow> world" where
  "run_callback (TermLookup q i r query) w =
     w\<lparr>fetched := fetched w @ [''/api/search-terms?q='' @ encodeURIComponent query]\<rparr>"
| "run_callback (GeneLookup q r query) w =
     w\<lparr>fetched := fetched w @ [''/api/search-genes?q='' @ encodeURIComponent query]\<rparr>"

text \<open>The URL that a timer's callback passes to \<^verbatim>\<open>fetch\<close>.\<close>

fun request_of :: "lookup \<Rightarrow> string" where
  "request_of (TermLookup q i r query) = ''/api/search-terms?q='' @ encodeURIComponent query"
| "request_of (GeneLookup q r query) = ''/api/search-genes?q='' @ encodeURIComponent query"

text \<open>
  Time passes: the clock moves on by \<open>ms\<close> milliseconds, and the timers that are due
  by then fire, earliest first. A timer never fires before it is due. (No callback of
  these scripts schedules a timer, so one pass over the due timers is enough.)
\<close>

definition advance :: "nat \<Rightarrow> world \<Rightarrow> world" where
  "advance ms w =
     foldl (\<lambda>w' x. run_callback (callback x) w')
       (w\<lparr>now := now w + ms, timers := filter (\<lambda>x. \<not> due x \<le> now w + ms) (timers w)\<rparr>)
       (sort_key due (filter (\<lambda>x. due x \<le> now w + ms) (timers w)))"

section \<open>The suggestion dispatchers (autocomplete.js)\<close>

text \<open>
  The closure that a call of \<^verbatim>\<open>setupTermAutocomplete\<close> creates: the three elements and
  the variable \<^verbatim>\<open>debounceTimer\<close> (\<^verbatim>\<open>undefined\<close> at first). The call returns at the
  guard, before it has registered any listener, when one of the elements is missing:
  that is the result \<^const>\<open>None\<close>. Otherwise the \<^verbatim>\<open>input\<close> listener and the document's
  \<^verbatim>\<open>click\<close> listener are registered over the closure returned.
\<close>

record term_autocomplete =
  queryInput :: ref
  idInput :: ref
  resultsContainer :: ref
  debounceTimer :: "nat option"

definition setupTermAutocomplete ::
  "string \<Rightarrow> string \<Rightarrow> string \<Rightarrow> document \<Rightarrow> term_autocomplete option" where
  "setupTermAutocomplete queryInputId idInputId resultsContainerId d =
     (case getElementById d queryInputId of
        None \<Rightarrow> None
      | Some q \<Rightarrow>
     (case getElementById d idInputId of
        None \<Rightarrow> None
      | Some i \<Rightarrow>
     (case getElementById d resultsContainerId of
        None \<Rightarrow> None
      | Some r \<Rightarrow>
          Some \<lparr>queryInput = q, idInput = i, resultsContainer = r, debounceTimer = None\<rparr>)))"

text \<open>The \<^verbatim>\<open>input\<close> listener of a term dispatcher.\<close>

definition term_on_input :: "term_autocomplete \<Rightarrow> world \<Rightarrow> term_autocomplete \<times> world" where
  "term_on_input c w =
     (let w1 = clearTimeout (debounceTimer c) w;
          query = el_value (elements (doc w1) (queryInput c));
          w2 = w1\<lparr>doc := set_value (idInput c) '''' (doc w1)\<rparr>
      in if length query < 3
         then (c, w2\<lparr>doc := set_children (resultsContainer c) [] (doc w2)\<rparr>)
         else (case setTimeout (TermLookup (queryInput c) (idInput c) (resultsContainer c) query)
                      250 w2 of
                 (h, w3) \<Rightarrow> (c\<lparr>debounceTimer := Some h\<rparr>, w3)))"

text \<open>
  The \<^verbatim>\<open>click\<close> listener of a rendered entry (it assigns to the query field, a text
  input, and for a term to the hidden identifier field), and the term entry itself.
\<close>

fun run_click :: "on_click \<Rightarrow> document \<Rightarrow> document" where
  "run_click (SelectTerm q i r t) d =
     set_children r []
       (set_value i (term_id t)
         (set_text_value q (term_id t @ '' - '' @ term_name t) d))"
| "run_click (SelectGene q r g) d =
     set_children r [] (set_text_value q (gene_symbol g) d)"

definition term_item :: "ref \<Rightarrow> ref \<Rightarrow> ref \<Rightarrow> term_result \<Rightarrow> anchor" where
  "term_item q i r t =
     \<lparr>href = ''#'',
      anchor_innerHTML =
        ''<strong>'' @ term_id t @ ''</strong> - '' @ term_name t @
        '' <span class='' @ [CHR 0x22] @ ''muted-small'' @ [CHR 0x22] @ ''>'' @
        term_namespace t @ ''</span>'',
      click_listener = SelectTerm q i r t\<rparr>"

definition no_results :: node where
  "no_results =
     Markup (''<div class='' @ [CHR 0x22] @ ''no-results'' @ [CHR 0x22] @
             ''>No matches found</div>'')"

text \<open>
  The continuation of a term request, run with \<^verbatim>\<open>data.results\<close> when the response has
  arrived and parsed.
\<close>

definition term_on_data :: "ref \<Rightarrow> ref \<Rightarrow> ref \<Rightarrow> term_result list \<Rightarrow> document \<Rightarrow> document" where
  "term_on_data q i r results d =
     (if length results > 0
      then foldl (\<lambda>d' t. appendChild r (Anchor (term_item q i r t)) d')
             (set_children r [] d) results
      else set_children r [no_results] (set_children r [] d))"

text \<open>
  The document's \<^verbatim>\<open>click\<close> listener of a dispatcher. The two tests are the browser's:
  whether the results container contains the event target, and whether the target is
  the query field.
\<close>

definition on_document_click :: "ref \<Rightarrow> bool \<Rightarrow> bool \<Rightarrow> document \<Rightarrow> document" where
  "on_document_click r containsTarget targetIsQueryInput d =
     (if \<not> containsTarget \<and> \<not> targetIsQueryInput then set_children r [] d else d)"

text \<open>
  A click on a rendered entry runs the entry's listener and then, as the event reaches
  the document, the document's \<^verbatim>\<open>click\<close> listeners of the dispatchers on the page, in
  the order of their registration. Each is given here by its results container and the
  outcome of its two tests.
\<close>

fun document_click_listeners :: "(ref \<times> bool \<times> bool) list \<Rightarrow> document \<Rightarrow> document" where
  "document_click_listeners [] d = d"
| "document_click_listeners ((r, containsTarget, targetIsQueryInput) # ls) d =
     document_click_listeners ls (on_document_click r containsTarget targetIsQueryInput d)"

definition select_entry :: "on_click \<Rightarrow> (ref \<times> bool \<times> bool) list \<Rightarrow> document \<Rightarrow> document" where
  "select_entry l ls d = document_click_listeners ls (run_click l d)"

text \<open>The same for \<^verbatim>\<open>setupGeneAutocomplete\<close>, which has no identifier field.\<close>

record gene_autocomplete =
  geneQueryInput :: ref
  geneResultsContainer :: ref
  geneDebounceTimer :: "nat option"

definition setupGeneAutocomplete :: "string \<Rightarrow> string \<Rightarrow> document \<Rightarrow> gene_autocomplete option" where
  "setupGeneAutocomplete queryInputId resultsContainerId d =
     (case getElementById d queryInputId of
        None \<Rightarrow> None
      | Some q \<Rightarrow>
     (case getElementById d resultsContainerId of
        None \<Rightarrow> None
      | Some r \<Rightarrow>
          Some \<lparr>geneQueryInput = q, geneResultsContainer = r, geneDebounceTimer = None\<rparr>))"

definition gene_on_input :: "gene_autocomplete \<Rightarrow> world \<Rightarrow> gene_autocomplete \<times> world" where
  "gene_on_input c w =
     (let w1 = clearTimeout (geneDebounceTimer c) w;
          query = el_value (elements (doc w1) (geneQueryInput c))
      in if length query < 2
         then (c, w1\<lparr>doc := set_children (geneResultsContainer c) [] (doc w1)\<rparr>)
         else (case setTimeout (GeneLookup (geneQueryInput c) (geneResultsContainer c) query)
                      250 w1 of
                 (h, w2) \<Rightarrow> (c\<lparr>geneDebounceTimer := Some h\<rparr>, w2)))"

definition gene_item :: "ref \<Rightarrow> ref \<Rightarrow> gene_result \<Rightarrow> anchor" where
  "gene_item q r g =
     \<lparr>href = ''#'',
      anchor_innerHTML = ''<strong>'' @ gene_symbol g @ ''</strong> - '' @ gene_name g,
      click_listener = SelectGene q r g\<rparr>"

definition gene_on_data :: "ref \<Rightarrow> ref \<Rightarrow> gene_result list \<Rightarrow> document \<Rightarrow> document" where
  "gene_on_data q r results d =
     (if length results > 0
      then foldl (\<lambda>d' g. appendChild r (Anchor (gene_item q r g)) d')
             (set_children r [] d) results
      else set_children r [no_results] (set_children r [] d))"

text \<open>
  An input event: the browser has put the typed text into the query field, then the
  \<^verbatim>\<open>input\<close> listener runs. A burst is a list of such events, each with the time that
  has passed since the event before it.
\<close>

definition term_input_event ::
  "term_autocomplete \<Rightarrow> string \<Rightarrow> world \<Rightarrow> term_autocomplete \<times> world" where
  "term_input_event c s w = term_on_input c (w\<lparr>doc := set_value (queryInput c) s (doc w)\<rparr>)"

fun term_burst ::
  "term_autocomplete \<Rightarrow> world \<Rightarrow> (nat \<times> string) list \<Rightarrow> term_autocomplete \<times> world" where
  "term_burst c w [] = (c, w)"
| "term_burst c w ((gap, s) # es) =
     (case term_input_event c s (advance gap w) of (c', w') \<Rightarrow> term_burst c' w' es)"

definition gene_input_event ::
  "gene_autocomplete \<Rightarrow> string \<Rightarrow> world \<Rightarrow> gene_autocomplete \<times> world" where
  "gene_input_event c s w = gene_on_input c (w\<lparr>doc := set_value (geneQueryInput c) s (doc w)\<rparr>)"

fun gene_burst ::
  "gene_autocomplete \<Rightarrow> world \<Rightarrow> (nat \<times> string) list \<Rightarrow> gene_autocomplete \<times> world" where
  "gene_burst c w [] = (c, w)"
| "gene_burst c w ((gap, s) # es) =
     (case gene_input_event c s (advance gap w) of (c', w') \<Rightarrow> gene_burst c' w' es)"

section \<open>The form mode controller and the submit fallback (similarity.js)\<close>

text \<open>
  The closure of the \<^verbatim>\<open>DOMContentLoaded\<close> listener, over which \<^verbatim>\<open>updateFormVisibility\<close>
  is defined: the two containers found by the listener and the text inputs inside them.
\<close>

record form_closure =
  termInputsContainer :: ref
  geneInputsContainer :: ref
  termQueryInputs :: "ref list"
  geneQueryInputs :: "ref list"

fun setRequired :: "ref list \<Rightarrow> bool \<Rightarrow> document \<Rightarrow> document" where
  "setRequired [] isRequired d = d"
| "setRequired (input # inputs) isRequired d =
     setRequired inputs isRequired
       (if isRequired then setAttribute_required input '''' d
        else removeAttribute_required input d)"

definition updateFormVisibility :: "form_closure \<Rightarrow> document \<Rightarrow> document completion" where
  "updateFormVisibility c d =
     (case checkedMode d of
        None \<Rightarrow> Throw TypeError d
      | Some checked \<Rightarrow>
     (let selectedMode = el_value (elements d checked);
          d1 = classList_add (termInputsContainer c) ''hidden'' d;
          d2 = classList_add (geneInputsContainer c) ''hidden'' d1
      in case getElementById d2 ''matrix-inputs'' of
           None \<Rightarrow> Throw TypeError d2
         | Some matrixInputs \<Rightarrow>
     (let d3 = classList_add matrixInputs ''hidden'' d2;
          d4 = setRequired (termQueryInputs c) False d3;
          d5 = setRequired (geneQueryInputs c) False d4;
          listInput = geneListInput d5;
          d6 = (case listInput of
                  None \<Rightarrow> d5
                | Some g \<Rightarrow> removeAttribute_required g d5)
      in if selectedMode = ''term'' then
           Normal (setRequired (termQueryInputs c) True
                     (classList_remove (termInputsContainer c) ''hidden'' d6))
         else if selectedMode = ''gene'' then
           Normal (setRequired (geneQueryInputs c) True
                     (classList_remove (geneInputsContainer c) ''hidden'' d6))
         else if selectedMode = ''matrix'' then
           (case getElementById d6 ''matrix-inputs'' of
              None \<Rightarrow> Throw TypeError d6
            | Some m \<Rightarrow>
                Normal (case listInput of
                          None \<Rightarrow> classList_remove m ''hidden'' d6
                        | Some g \<Rightarrow>
                            setAttribute_required g '''' (classList_remove m ''hidden'' d6)))
         else Normal d6)))"

text \<open>
  The \<^verbatim>\<open>DOMContentLoaded\<close> listener. It returns at its guard when one of the two
  containers is missing (no closure, the document untouched). Otherwise it registers
  \<^verbatim>\<open>updateFormVisibility\<close> on the mode radios and calls it once.
\<close>

definition onDOMContentLoaded :: "document \<Rightarrow> (form_closure option \<times> document) completion" where
  "onDOMContentLoaded d =
     (case getElementById d ''term-inputs'' of
        None \<Rightarrow> Normal (None, d)
      | Some t \<Rightarrow>
     (case getElementById d ''gene-inputs'' of
        None \<Rightarrow> Normal (None, d)
      | Some g \<Rightarrow>
     (let c = \<lparr>termInputsContainer = t, geneInputsContainer = g,
               termQueryInputs = textInputs d t, geneQueryInputs = textInputs d g\<rparr>
      in case updateFormVisibility c d of
           Normal d' \<Rightarrow> Normal (Some c, d')
         | Throw e d' \<Rightarrow> Throw e (Some c, d'))))"

text \<open>
  The \<^verbatim>\<open>submit\<close> listener of the form. The test \<^verbatim>\<open>!input.value\<close> holds of the empty
  string only.
\<close>

definition on_submit :: "document \<Rightarrow> document completion" where
  "on_submit d =
     (case checkedMode d of
        None \<Rightarrow> Normal d
      | Some selectedModeInput \<Rightarrow>
          if el_value (elements d selectedModeInput) = ''term'' then
            (let termAIdInput = getElementById d ''term_a_id'';
                 termBIdInput = getElementById d ''term_b_id''
             in case termAIdInput of
                  None \<Rightarrow> Throw TypeError d
                | Some a \<Rightarrow>
            (case (if el_value (elements d a) = '''' then
                     (case getElementById d ''term_a_query'' of
                        None \<Rightarrow> Throw TypeError d
                      | Some qa \<Rightarrow> Normal (set_value a (el_value (elements d qa)) d))
                   else Normal d) of
               Throw e d1 \<Rightarrow> Throw e d1
             | Normal d1 \<Rightarrow>
            (case termBIdInput of
               None \<Rightarrow> Throw TypeError d1
             | Some b \<Rightarrow>
                 if el_value (elements d1 b) = '''' then
                   (case getElementById d1 ''term_b_query'' of
                      None \<Rightarrow> Throw TypeError d1
                    | Some qb \<Rightarrow> Normal (set_value b (el_value (elements d1 qb)) d1))
                 else Normal d1)))
          else Normal d)"

text \<open>
  A burst that begins now: a first event, then the events of the list, each after its
  gap.
\<close>

definition term_typing ::
  "term_autocomplete \<Rightarrow> world \<Rightarrow> string \<Rightarrow> (nat \<times> string) list \<Rightarrow> term_autocomplete \<times> world" where
  "term_typing c w s es = (case term_input_event c s w of (c', w') \<Rightarrow> term_burst c' w' es)"

definition gene_typing ::
  "gene_autocomplete \<Rightarrow> world \<Rightarrow> string \<Rightarrow> (nat \<times> string) list \<Rightarrow> gene_autocomplete \<times> world" where
  "gene_typing c w s es = (case gene_input_event c s w of (c', w') \<Rightarrow> gene_burst c' w' es)"

text \<open>
  A dispatcher in the middle of a burst, seen from its start: \<open>F\<close> are the timers of
  other dispatchers that were pending then, \<open>log0\<close> the requests made before, \<open>n0\<close> the
  next handle. The dispatcher's variable holds a handle given out since, that of the one
  timer it has scheduled, which is due 250 ms from now and will look \<open>cb\<close> up; the other
  scheduled timers are those of \<open>F\<close> that have not fired; and the requests made since the
  start are those of the timers of \<open>F\<close> that have fired.
\<close>

definition burst_inv ::
  "timer list \<Rightarrow> string list \<Rightarrow> nat \<Rightarrow> world \<Rightarrow> nat option \<Rightarrow> lookup \<Rightarrow> bool" where
  "burst_inv F log0 n0 w dt cb =
     (\<exists>h P new. dt = Some h \<and> n0 \<le> h \<and> h < nextHandle w \<and>
        timers w = filter P F @ [\<lparr>handle = h, due = now w + 250, callback = cb\<rparr>] \<and>
        (\<forall>x \<in> set F. \<not> P x \<longrightarrow> due x \<le> now w) \<and>
        fetched w = log0 @ new \<and>
        mset new = mset (map (\<lambda>x. request_of (callback x)) (filter (\<lambda>x. \<not> P x) F)))"

subsection \<open>An example page\<close>

text \<open>
  A page with every element that the two scripts look for, the mode radio \<^verbatim>\<open>term\<close>
  checked, and nothing typed yet; and the browser showing it, with no timer scheduled
  and no request made.
\<close>

definition blank :: element where
  "blank = \<lparr>el_value = '''', el_children = [], el_classList = [], el_required = None\<rparr>"

definition similarity_page :: document where
  "similarity_page =
     \<lparr>getElementById =
        [''term_a_query'' \<mapsto> 0, ''term_a_id'' \<mapsto> 1, ''results_a'' \<mapsto> 2,
         ''term_b_query'' \<mapsto> 3, ''term_b_id'' \<mapsto> 4, ''results_b'' \<mapsto> 5,
         ''gene_a_query'' \<mapsto> 6, ''results_gene_a'' \<mapsto> 7,
         ''gene_b_query'' \<mapsto> 8, ''results_gene_b'' \<mapsto> 9,
         ''term-inputs'' \<mapsto> 10, ''gene-inputs'' \<mapsto> 11, ''matrix-inputs'' \<mapsto> 12,
         ''gene_list_query'' \<mapsto> 13],
      elements =
        (\<lambda>r. blank)
          (14 := blank\<lparr>el_value := ''term''\<rparr>,
           15 := blank\<lparr>el_value := ''gene''\<rparr>,
           16 := blank\<lparr>el_value := ''matrix''\<rparr>),
      modeRadios = [14, 15, 16],
      checkedMode = Some 14,
      textInputs = (\<lambda>r. [])(10 := [0, 3], 11 := [6, 8]),
      geneListInput = Some 13,
      similarityForm = Some 17\<rparr>"

definition browser :: world where
  "browser = \<lparr>doc = similarity_page, now = 0, nextHandle = 1, timers = [], fetched = []\<rparr>"

definition term_a :: term_autocomplete where
  "term_a = \<lparr>queryInput = 0, idInput = 1, resultsContainer = 2, debounceTimer = None\<rparr>"

definition gene_a :: gene_autocomplete where
  "gene_a = \<lparr>geneQueryInput = 6, geneResultsContainer = 7, geneDebounceTimer = None\<rparr>"

text \<open>The browser after \<^verbatim>\<open>TP\<close> has been typed into the first gene query field.\<close>

definition busy :: world where
  "busy = snd (gene_input_event gene_a ''TP'' browser)"

text \<open>The term dispatcher after \<^verbatim>\<open>cell\<close> has been typed into its query field.\<close>

definition typed_cell :: "term_autocomplete \<times> world" where
  "typed_cell = term_input_event term_a ''cell'' browser"

text \<open>A response with two terms, and one with two genes.\<close>

definition two_terms :: "term_result list" where
  "two_terms =
     [\<lparr>term_id = ''GO:0008150'', term_name = ''biological_process'',
       term_namespace = ''biological_process''\<rparr>,
      \<lparr>term_id = ''GO:0007049'', term_name = ''cell cycle'',
       term_namespace = ''biological_process''\<rparr>]"

text \<open>A term whose name holds a line feed.\<close>

definition broken_name :: term_result where
  "broken_name =
     \<lparr>term_id = ''GO:1'', term_name = ''cell'' @ [CHR 0x0A] @ ''cycle'',
      term_namespace = ''biological_process''\<rparr>"

definition two_genes :: "gene_result list" where
  "two_genes =
     [\<lparr>gene_symbol = ''TP53'', gene_name = ''tumor protein p53''\<rparr>,
      \<lparr>gene_symbol = ''TP63'', gene_name = ''tumor protein p63''\<rparr>]"

text \<open>
  The same page with no mode radio checked; with free text typed into both term query
  fields and an identifier selected for the second only; without its
  \<^verbatim>\<open>term-inputs\<close> container and without the elements of the first term dispatcher.
\<close>

definition unchecked_page :: document where
  "unchecked_page = similarity_page\<lparr>checkedMode := None\<rparr>"

definition typed_page :: document where
  "typed_page =
     set_value 4 ''GO:0007049''
       (set_value 3 ''GO:0007049 - cell cycle''
         (set_value 0 ''mitochondrion'' similarity_page))"

definition partial_page :: document where
  "partial_page =
     similarity_page\<lparr>getElementById :=
       (getElementById similarity_page)
         (''term-inputs'' := None, ''term_a_id'' := None, ''gene_a_query'' := None)\<rparr>"

text \<open>A gene page without a count badge, and one without an annotation table.\<close>

definition page_no_badge :: gene_detail_page where
  "page_no_badge =
     \<lparr>aspectFilter = Some ''all'', evidenceFilter = Some ''all'',
      tableRows = [\<lparr>data_aspect = Some ''BP'', data_evidence = Some ''IDA'', style_display = ''none''\<rparr>],
      filteredCountBadge = None\<rparr>"

definition page_no_table :: gene_detail_page where
  "page_no_table =
     \<lparr>aspectFilter = Some ''all'', evidenceFilter = Some ''all'',
      tableRows = [], filteredCountBadge = Some ''''\<rparr>"

section \<open>Properties of the annotation table filter\<close>

subsection \<open>Decimal numerals\<close>

lemma digit_val_char: "d < 10 \<Longrightarrow> digit_val (digit_char d) = d"
proof -
  assume "d < 10"
  then have "d \<in> {0, 1, 2, 3, 4, 5, 6, 7, 8, 9}" by auto
  then show ?thesis
    by (auto simp add: digit_val_def digit_char_def)
qed

lemma nat_of_string_snoc: "nat_of_string (s @ [c]) = 10 * nat_of_string s + digit_val c"
  by (simp add: nat_of_string_def)

lemma nat_of_string_of_nat: "nat_of_string (string_of_nat n) = n"
proof (induction n rule: string_of_nat.induct)
  case (1 n)
  show ?case
  proof (cases "n < 10")
    case True
    then show ?thesis
      by (simp add: string_of_nat.simps[of n] nat_of_string_def digit_val_char)
  next
    case False
    with 1 have "nat_of_string (string_of_nat (n div 10)) = n div 10" by simp
    with False show ?thesis
      by (simp add: string_of_nat.simps[of n] nat_of_string_snoc digit_val_char)
  qed
qed

lemma string_of_nat_inj: "string_of_nat m = string_of_nat n \<Longrightarrow> m = n"
  by (metis nat_of_string_of_nat)

subsection \<open>The loop over the rows\<close>

lemma forEach_row_rows:
  "fst (forEach_row a e rs n) =
     map (\<lambda>r. r\<lparr>style_display := (if row_visible a e r then '''' else ''none'')\<rparr>) rs"
  by (induction rs arbitrary: n) (simp_all add: row_visible_def split_beta)

lemma forEach_row_count:
  "snd (forEach_row a e rs n) = n + length (filter (row_visible a e) rs)"
  by (induction rs arbitrary: n) (simp_all add: row_visible_def split_beta)

lemma length_filter_display:
  "length (filter (\<lambda>r. style_display r = '''')
     (map (\<lambda>r. r\<lparr>style_display := (if P r then '''' else ''none'')\<rparr>) rs)) = length (filter P rs)"
  by (induction rs) simp_all

lemma filterAnnotations_rows:
  assumes "aspectFilter p = Some a" and "evidenceFilter p = Some e"
  shows "tableRows (state_of (filterAnnotations p)) =
     map (\<lambda>r. r\<lparr>style_display := (if row_visible a e r then '''' else ''none'')\<rparr>) (tableRows p)"
proof -
  obtain rs n where f: "forEach_row a e (tableRows p) 0 = (rs, n)"
    by (cases "forEach_row a e (tableRows p) 0")
  with forEach_row_rows[of a e "tableRows p" 0]
  have "rs = map (\<lambda>r. r\<lparr>style_display := (if row_visible a e r then '''' else ''none'')\<rparr>) (tableRows p)"
    by simp
  with assms f show ?thesis
    by (cases "filteredCountBadge p") (simp_all add: filterAnnotations_def)
qed

lemma filterAnnotations_normal:
  assumes "aspectFilter p = Some a" and "evidenceFilter p = Some e" and "filteredCountBadge p = Some old"
  shows "filterAnnotations p = Normal (p\<lparr>tableRows := map (\<lambda>r. r\<lparr>style_display := (if row_visible a e r then '''' else ''none'')\<rparr>) (tableRows p),
       filteredCountBadge := Some (''Showing '' @ string_of_nat (length (filter (row_visible a e) (tableRows p))) @ '' terms'')\<rparr>)"
proof -
  obtain rs n where f: "forEach_row a e (tableRows p) 0 = (rs, n)"
    by (cases "forEach_row a e (tableRows p) 0")
  with forEach_row_rows[of a e "tableRows p" 0] forEach_row_count[of a e "tableRows p" 0]
  have "rs = map (\<lambda>r. r\<lparr>style_display := (if row_visible a e r then '''' else ''none'')\<rparr>) (tableRows p)"
    and "n = length (filter (row_visible a e) (tableRows p))"
    by simp_all
  with assms f show ?thesis
    by (simp add: filterAnnotations_def)
qed

subsection \<open>The loop body against the specified predicate\<close>

lemma row_visible_spec:
  assumes "e \<in> {''all'', ''EXP'', ''COMP'', ''IEA'', ''OTHER''}"
  shows "row_visible a e r = spec_visible a e r"
  using assms
  by (cases "data_evidence r")
     (auto simp add: row_visible_def spec_visible_def aspectMatch_def evidenceMatch_def code_in_def
       experimental_def computational_def electronic_def ExperimentalSet_def ComputationalSet_def ElectronicSet_def)

text \<open>
  Claim C1. Under an evidence selector that is one of \<^verbatim>\<open>all\<close>, \<^verbatim>\<open>EXP\<close>, \<^verbatim>\<open>COMP\<close>,
  \<^verbatim>\<open>IEA\<close>, \<^verbatim>\<open>OTHER\<close> and any aspect selector, \<^const>\<open>filterAnnotations\<close> leaves every row
  with \<^verbatim>\<open>style.display\<close> empty (shown) exactly when the specified predicate
  \<^const>\<open>spec_visible\<close> holds of it, and with \<^verbatim>\<open>none\<close> (hidden) otherwise; no other
  property of a row changes. This holds of the rows whether or not the count badge
  exists, since the rows are set before the badge is written.
\<close>

theorem filterAnnotations_refines_spec:
  assumes "aspectFilter p = Some aspect" and "evidenceFilter p = Some evidenceType"
    and "evidenceType \<in> {''all'', ''EXP'', ''COMP'', ''IEA'', ''OTHER''}"
  shows "length (tableRows (state_of (filterAnnotations p))) = length (tableRows p) \<and>
    (\<forall>i < length (tableRows p).
       tableRows (state_of (filterAnnotations p)) ! i =
         (tableRows p ! i)\<lparr>style_display :=
            (if spec_visible aspect evidenceType (tableRows p ! i) then '''' else ''none'')\<rparr>)"
  using assms by (simp add: filterAnnotations_rows row_visible_spec)

theorem filterAnnotations_refines_spec_witness:
  "style_display (tableRows (state_of (filterAnnotations page_exp)) ! 0) = '''' \<and>
   spec_visible ''all'' ''EXP'' (tableRows page_exp ! 0) \<and>
   style_display (tableRows (state_of (filterAnnotations page_exp)) ! 1) = ''none'' \<and>
   \<not> spec_visible ''all'' ''EXP'' (tableRows page_exp ! 1)"
proof -
  have a: "aspectFilter page_exp = Some ''all''" and e: "evidenceFilter page_exp = Some ''EXP''"
    by (simp_all add: page_exp_def)
  have v: "''EXP'' \<in> {''all'', ''EXP'', ''COMP'', ''IEA'', ''OTHER''}" by simp
  have n: "length (tableRows page_exp) = 2" by (simp add: page_exp_def)
  have s0: "spec_visible ''all'' ''EXP'' (tableRows page_exp ! 0)"
    by (simp add: page_exp_def spec_visible_def code_in_def ExperimentalSet_def)
  have s1: "\<not> spec_visible ''all'' ''EXP'' (tableRows page_exp ! 1)"
    by (simp add: page_exp_def spec_visible_def code_in_def ExperimentalSet_def)
  from filterAnnotations_refines_spec [OF a e v] n
  have "\<forall>i<2. tableRows (state_of (filterAnnotations page_exp)) ! i =
         (tableRows page_exp ! i)\<lparr>style_display :=
            (if spec_visible ''all'' ''EXP'' (tableRows page_exp ! i) then '''' else ''none'')\<rparr>"
    by simp
  then have "tableRows (state_of (filterAnnotations page_exp)) ! 0 =
         (tableRows page_exp ! 0)\<lparr>style_display :=
            (if spec_visible ''all'' ''EXP'' (tableRows page_exp ! 0) then '''' else ''none'')\<rparr>"
    and "tableRows (state_of (filterAnnotations page_exp)) ! 1 =
         (tableRows page_exp ! 1)\<lparr>style_display :=
            (if spec_visible ''all'' ''EXP'' (tableRows page_exp ! 1) then '''' else ''none'')\<rparr>"
    by simp_all
  with s0 s1 show ?thesis by simp
qed

text \<open>
  Claim C2. When both selects and the badge exist, \<^const>\<open>filterAnnotations\<close> completes
  normally and the badge reads \<^verbatim>\<open>Showing N terms\<close>, where \<open>N\<close> is the number of rows for
  which \<^const>\<open>aspectMatch\<close> and \<^const>\<open>evidenceMatch\<close> both hold; \<open>N\<close> is also the number of
  rows left shown, and it is the only count that the badge text spells.
\<close>

theorem filterAnnotations_badge_count:
  assumes "aspectFilter p = Some aspect" and "evidenceFilter p = Some evidenceType"
    and "filteredCountBadge p = Some old"
  shows "\<exists>p'. filterAnnotations p = Normal p' \<and>
     filteredCountBadge p' =
       Some (''Showing '' @
             string_of_nat (length (filter (row_visible aspect evidenceType) (tableRows p))) @
             '' terms'') \<and>
     length (filter (row_visible aspect evidenceType) (tableRows p)) =
       length (filter (\<lambda>r. style_display r = '''') (tableRows p')) \<and>
     (\<forall>m. filteredCountBadge p' = Some (''Showing '' @ string_of_nat m @ '' terms'') \<longrightarrow>
          m = length (filter (\<lambda>r. style_display r = '''') (tableRows p')))"
proof -
  let ?N = "length (filter (row_visible aspect evidenceType) (tableRows p))"
  let ?text = "''Showing '' @ string_of_nat ?N @ '' terms''"
  let ?p' = "p\<lparr>tableRows := map (\<lambda>r. r\<lparr>style_display :=
                 (if row_visible aspect evidenceType r then '''' else ''none'')\<rparr>) (tableRows p),
               filteredCountBadge := Some ?text\<rparr>"
  have n: "filterAnnotations p = Normal ?p'"
    by (rule filterAnnotations_normal [OF assms])
  have b: "filteredCountBadge ?p' = Some ?text"
    by simp
  have c: "?N = length (filter (\<lambda>r. style_display r = '''') (tableRows ?p'))"
    using length_filter_display [of "row_visible aspect evidenceType" "tableRows p"] by simp
  have u: "\<forall>m. filteredCountBadge ?p' = Some (''Showing '' @ string_of_nat m @ '' terms'') \<longrightarrow>
             m = length (filter (\<lambda>r. style_display r = '''') (tableRows ?p'))"
  proof (intro allI impI)
    fix m
    assume "filteredCountBadge ?p' = Some (''Showing '' @ string_of_nat m @ '' terms'')"
    then have "string_of_nat m = string_of_nat ?N"
      by simp
    then have "m = ?N"
      by (rule string_of_nat_inj)
    with c show "m = length (filter (\<lambda>r. style_display r = '''') (tableRows ?p'))"
      by (simp only:)
  qed
  show ?thesis
  proof (intro exI conjI)
    show "filterAnnotations p = Normal ?p'" by (rule n)
    show "filteredCountBadge ?p' = Some ?text" by (rule b)
    show "?N = length (filter (\<lambda>r. style_display r = '''') (tableRows ?p'))" by (rule c)
    show "\<forall>m. filteredCountBadge ?p' = Some (''Showing '' @ string_of_nat m @ '' terms'') \<longrightarrow>
             m = length (filter (\<lambda>r. style_display r = '''') (tableRows ?p'))" by (rule u)
  qed
qed

theorem filterAnnotations_badge_count_witness:
  "filteredCountBadge (state_of (filterAnnotations page_cc)) = Some ''Showing 2 terms'' \<and>
   length (filter (row_visible ''CC'' ''all'') (tableRows page_cc)) = 2 \<and>
   length (filter (\<lambda>r. style_display r = '''')
     (tableRows (state_of (filterAnnotations page_cc)))) = 2 \<and>
   \<not> throws (filterAnnotations page_cc)"
proof -
  have a: "aspectFilter page_cc = Some ''CC''" and e: "evidenceFilter page_cc = Some ''all''"
    and b: "filteredCountBadge page_cc = Some ''''"
    by (simp_all add: page_cc_def)
  have n: "length (filter (row_visible ''CC'' ''all'') (tableRows page_cc)) = 2"
    by (simp add: page_cc_def row_visible_def aspectMatch_def evidenceMatch_def)
  have d: "string_of_nat 2 = ''2''"
    by (simp add: string_of_nat.simps digit_char_def)
  from filterAnnotations_badge_count [OF a e b] n d show ?thesis
    by auto
qed

text \<open>
  Claim C3. The four evidence categories are the tests of the branches \<^verbatim>\<open>EXP\<close>,
  \<^verbatim>\<open>COMP\<close>, \<^verbatim>\<open>IEA\<close> and \<^verbatim>\<open>OTHER\<close> of \<^const>\<open>evidenceMatch\<close>. Every evidence code (also
  a missing one) passes exactly one of the four tests; the first three test membership
  of the three arrays, which are pairwise disjoint; the fourth holds exactly of the
  codes outside all three arrays, such as \<^verbatim>\<open>ZZZ\<close>.
\<close>

theorem evidence_partition:
  "(\<exists>!t. t \<in> {''EXP'', ''COMP'', ''IEA'', ''OTHER''} \<and> evidenceMatch t code) \<and>
   evidenceMatch ''EXP'' code = (code \<in> Some ` set experimental) \<and>
   evidenceMatch ''COMP'' code = (code \<in> Some ` set computational) \<and>
   evidenceMatch ''IEA'' code = (code \<in> Some ` set electronic) \<and>
   evidenceMatch ''OTHER'' code =
     (code \<notin> Some ` (set experimental \<union> set computational \<union> set electronic)) \<and>
   set experimental \<inter> set computational = {} \<and>
   set experimental \<inter> set electronic = {} \<and>
   set computational \<inter> set electronic = {} \<and>
   evidenceMatch ''OTHER'' (Some ''ZZZ'')"
proof -
  have disj: "set experimental \<inter> set computational = {}"
    "set experimental \<inter> set electronic = {}"
    "set computational \<inter> set electronic = {}"
    by (simp_all add: experimental_def computational_def electronic_def)
  have inc: "\<And>xs. array_includes xs code = (code \<in> Some ` set xs)"
    by (cases code) auto
  have m: "evidenceMatch ''EXP'' code = (code \<in> Some ` set experimental)"
    "evidenceMatch ''COMP'' code = (code \<in> Some ` set computational)"
    "evidenceMatch ''IEA'' code = (code \<in> Some ` set electronic)"
    "evidenceMatch ''OTHER'' code =
       (code \<notin> Some ` (set experimental \<union> set computational \<union> set electronic))"
    by (auto simp add: evidenceMatch_def inc)
  have z: "evidenceMatch ''OTHER'' (Some ''ZZZ'')"
    by (simp add: evidenceMatch_def experimental_def computational_def electronic_def)
  have ex1: "\<exists>!t. t \<in> {''EXP'', ''COMP'', ''IEA'', ''OTHER''} \<and> evidenceMatch t code"
  proof -
    consider (x) "code \<in> Some ` set experimental" | (c) "code \<in> Some ` set computational"
      | (i) "code \<in> Some ` set electronic"
      | (o) "code \<notin> Some ` (set experimental \<union> set computational \<union> set electronic)"
      by auto
    then show ?thesis
    proof cases
      case x
      with disj have "evidenceMatch ''EXP'' code" "\<not> evidenceMatch ''COMP'' code"
        "\<not> evidenceMatch ''IEA'' code" "\<not> evidenceMatch ''OTHER'' code"
        unfolding m by auto
      then show ?thesis by auto
    next
      case c
      with disj have "\<not> evidenceMatch ''EXP'' code" "evidenceMatch ''COMP'' code"
        "\<not> evidenceMatch ''IEA'' code" "\<not> evidenceMatch ''OTHER'' code"
        unfolding m by auto
      then show ?thesis by auto
    next
      case i
      with disj have "\<not> evidenceMatch ''EXP'' code" "\<not> evidenceMatch ''COMP'' code"
        "evidenceMatch ''IEA'' code" "\<not> evidenceMatch ''OTHER'' code"
        unfolding m by auto
      then show ?thesis by auto
    next
      case o
      then have "\<not> evidenceMatch ''EXP'' code" "\<not> evidenceMatch ''COMP'' code"
        "\<not> evidenceMatch ''IEA'' code" "evidenceMatch ''OTHER'' code"
        unfolding m by auto
      then show ?thesis by auto
    qed
  qed
  from ex1 m disj z show ?thesis by simp
qed

text \<open>
  Claim C10. Under an evidence selector that is none of \<^verbatim>\<open>all\<close>, \<^verbatim>\<open>EXP\<close>, \<^verbatim>\<open>COMP\<close>,
  \<^verbatim>\<open>IEA\<close>, \<^verbatim>\<open>OTHER\<close>, \<^const>\<open>filterAnnotations\<close> hides every row, whatever its aspect
  and evidence code, and the badge reads \<^verbatim>\<open>Showing 0 terms\<close>.
\<close>

theorem unknown_evidenceType_hides_all:
  assumes "aspectFilter p = Some aspect" and "evidenceFilter p = Some evidenceType"
    and "evidenceType \<notin> {''all'', ''EXP'', ''COMP'', ''IEA'', ''OTHER''}"
    and "filteredCountBadge p = Some old"
  shows "\<exists>p'. filterAnnotations p = Normal p' \<and>
     tableRows p' = map (\<lambda>r. r\<lparr>style_display := ''none''\<rparr>) (tableRows p) \<and>
     (\<forall>r \<in> set (tableRows p'). style_display r = ''none'') \<and>
     filteredCountBadge p' = Some ''Showing 0 terms''"
proof -
  from assms(3) have "\<And>r. \<not> row_visible aspect evidenceType r"
    by (simp add: row_visible_def evidenceMatch_def)
  moreover have "string_of_nat 0 = ''0''"
    by (simp add: string_of_nat.simps digit_char_def)
  ultimately show ?thesis
    using filterAnnotations_normal [OF assms(1,2,4)] by simp
qed

theorem unknown_evidenceType_hides_all_witness:
  "map style_display (tableRows (state_of (filterAnnotations page_unknown))) = [''none'', ''none''] \<and>
   filteredCountBadge (state_of (filterAnnotations page_unknown)) = Some ''Showing 0 terms'' \<and>
   \<not> throws (filterAnnotations page_unknown)"
proof -
  have a: "aspectFilter page_unknown = Some ''all''"
    and e: "evidenceFilter page_unknown = Some ''TAS''"
    and b: "filteredCountBadge page_unknown = Some ''Showing 2 terms''"
    by (simp_all add: page_unknown_def)
  have v: "''TAS'' \<notin> {''all'', ''EXP'', ''COMP'', ''IEA'', ''OTHER''}" by simp
  have r: "map style_display (map (\<lambda>r. r\<lparr>style_display := ''none''\<rparr>) (tableRows page_unknown)) =
      [''none'', ''none'']"
    by (simp add: page_unknown_def)
  from unknown_evidenceType_hides_all [OF a e v b] r show ?thesis
    by auto
qed

section \<open>Properties of the suggestion dispatchers\<close>

subsection \<open>Elements, timers and listeners\<close>

lemma value_set_value [simp]: "el_value (elements (set_value r v d) r) = v"
  by (simp add: set_value_def)

lemma set_value_other [simp]: "x \<noteq> r \<Longrightarrow> elements (set_value r v d) x = elements d x"
  by (simp add: set_value_def)

lemma set_children_other [simp]: "x \<noteq> r \<Longrightarrow> elements (set_children r ns d) x = elements d x"
  by (simp add: set_children_def)

lemma value_set_children [simp]:
  "el_value (elements (set_children r ns d) x) = el_value (elements d x)"
  by (simp add: set_children_def)

lemma children_set_value [simp]:
  "el_children (elements (set_value r v d) x) = el_children (elements d x)"
  by (simp add: set_value_def)

lemma value_set_value_other [simp]:
  "x \<noteq> r \<Longrightarrow> el_value (elements (set_value r v d) x) = el_value (elements d x)"
  by (simp add: set_value_def)

lemma children_set_children [simp]:
  "el_children (elements (set_children r ns d) r) = ns"
  by (simp add: set_children_def)

lemma clearTimeout_fields [simp]:
  "doc (clearTimeout t w) = doc w"
  "now (clearTimeout t w) = now w"
  "nextHandle (clearTimeout t w) = nextHandle w"
  "fetched (clearTimeout t w) = fetched w"
  by (cases t; simp)+

lemma clearTimeout_timers:
  "timers (clearTimeout t w) = filter (\<lambda>x. Some (handle x) \<noteq> t) (timers w)"
  by (cases t) simp_all

lemma run_callback_request: "run_callback f w = w\<lparr>fetched := fetched w @ [request_of f]\<rparr>"
  by (cases f) simp_all

lemma foldl_run_callback:
  "foldl (\<lambda>w' x. run_callback (callback x) w') w xs =
     w\<lparr>fetched := fetched w @ map (\<lambda>x. request_of (callback x)) xs\<rparr>"
  by (induction xs arbitrary: w) (simp_all add: run_callback_request)

lemma advance_eq:
  "advance ms w =
     w\<lparr>now := now w + ms, timers := filter (\<lambda>x. \<not> due x \<le> now w + ms) (timers w),
       fetched := fetched w @ map (\<lambda>x. request_of (callback x))
                    (sort_key due (filter (\<lambda>x. due x \<le> now w + ms) (timers w)))\<rparr>"
  by (simp add: advance_def foldl_run_callback)

lemma term_on_input_short:
  assumes "length (el_value (elements (doc w) (queryInput c))) < 3"
  shows "term_on_input c w =
     (c, (clearTimeout (debounceTimer c) w)
           \<lparr>doc := set_children (resultsContainer c) []
                    (set_value (idInput c) '''' (doc w))\<rparr>)"
  using assms by (simp add: term_on_input_def Let_def)

lemma term_on_input_long:
  assumes "\<not> length (el_value (elements (doc w) (queryInput c))) < 3"
  shows "term_on_input c w =
     (c\<lparr>debounceTimer := Some (nextHandle w)\<rparr>,
      w\<lparr>doc := set_value (idInput c) '''' (doc w),
        timers := filter (\<lambda>x. Some (handle x) \<noteq> debounceTimer c) (timers w) @
          [\<lparr>handle = nextHandle w, due = now w + 250,
            callback = TermLookup (queryInput c) (idInput c) (resultsContainer c)
                         (el_value (elements (doc w) (queryInput c)))\<rparr>],
        nextHandle := nextHandle w + 1\<rparr>)"
  using assms
  by (cases "debounceTimer c") (simp_all add: term_on_input_def Let_def setTimeout_def)

lemma term_input_event_long:
  assumes "3 \<le> length s"
  shows "term_input_event c s w =
     (c\<lparr>debounceTimer := Some (nextHandle w)\<rparr>,
      w\<lparr>doc := set_value (idInput c) '''' (set_value (queryInput c) s (doc w)),
        timers := filter (\<lambda>x. Some (handle x) \<noteq> debounceTimer c) (timers w) @
          [\<lparr>handle = nextHandle w, due = now w + 250,
            callback = TermLookup (queryInput c) (idInput c) (resultsContainer c) s\<rparr>],
        nextHandle := nextHandle w + 1\<rparr>)"
  using assms by (simp add: term_input_event_def term_on_input_long)

lemma gene_on_input_short:
  assumes "length (el_value (elements (doc w) (geneQueryInput c))) < 2"
  shows "gene_on_input c w =
     (c, (clearTimeout (geneDebounceTimer c) w)
           \<lparr>doc := set_children (geneResultsContainer c) [] (doc w)\<rparr>)"
  using assms by (simp add: gene_on_input_def Let_def)

lemma gene_on_input_long:
  assumes "\<not> length (el_value (elements (doc w) (geneQueryInput c))) < 2"
  shows "gene_on_input c w =
     (c\<lparr>geneDebounceTimer := Some (nextHandle w)\<rparr>,
      w\<lparr>timers := filter (\<lambda>x. Some (handle x) \<noteq> geneDebounceTimer c) (timers w) @
          [\<lparr>handle = nextHandle w, due = now w + 250,
            callback = GeneLookup (geneQueryInput c) (geneResultsContainer c)
                         (el_value (elements (doc w) (geneQueryInput c)))\<rparr>],
        nextHandle := nextHandle w + 1\<rparr>)"
  using assms
  by (cases "geneDebounceTimer c") (simp_all add: gene_on_input_def Let_def setTimeout_def)

lemma gene_input_event_long:
  assumes "2 \<le> length s"
  shows "gene_input_event c s w =
     (c\<lparr>geneDebounceTimer := Some (nextHandle w)\<rparr>,
      w\<lparr>doc := set_value (geneQueryInput c) s (doc w),
        timers := filter (\<lambda>x. Some (handle x) \<noteq> geneDebounceTimer c) (timers w) @
          [\<lparr>handle = nextHandle w, due = now w + 250,
            callback = GeneLookup (geneQueryInput c) (geneResultsContainer c) s\<rparr>],
        nextHandle := nextHandle w + 1\<rparr>)"
  using assms by (simp add: gene_input_event_def gene_on_input_long)

subsection \<open>Short queries\<close>

lemma term_on_input_short_after:
  assumes "length (el_value (elements (doc w) (queryInput c))) < 3"
  shows "fetched (advance ms (snd (term_on_input c w))) =
     fetched w @ map (\<lambda>x. request_of (callback x))
       (sort_key due (filter (\<lambda>x. due x \<le> now w + ms)
          (filter (\<lambda>x. Some (handle x) \<noteq> debounceTimer c) (timers w))))"
  using assms by (simp add: term_on_input_short advance_eq clearTimeout_timers)

lemma gene_on_input_short_after:
  assumes "length (el_value (elements (doc w) (geneQueryInput c))) < 2"
  shows "fetched (advance ms (snd (gene_on_input c w))) =
     fetched w @ map (\<lambda>x. request_of (callback x))
       (sort_key due (filter (\<lambda>x. due x \<le> now w + ms)
          (filter (\<lambda>x. Some (handle x) \<noteq> geneDebounceTimer c) (timers w))))"
  using assms by (simp add: gene_on_input_short advance_eq clearTimeout_timers)

text \<open>
  Claim C4. When the query field holds fewer than three characters (term dispatcher) or
  fewer than two (gene dispatcher), the \<^verbatim>\<open>input\<close> listener leaves the results container
  without children, makes no request, schedules no timer and cancels the dispatcher's
  own pending lookup: the timers left are those of other dispatchers, and the requests
  made afterwards, however long one waits, are exactly theirs as they come due.
\<close>

theorem short_query_clears_without_request:
  assumes "length (el_value (elements (doc w) (queryInput c))) < 3"
    and "length (el_value (elements (doc gw) (geneQueryInput gc))) < 2"
  shows "(el_children (elements (doc (snd (term_on_input c w))) (resultsContainer c)) = [] \<and>
          fetched (snd (term_on_input c w)) = fetched w \<and>
          timers (snd (term_on_input c w)) =
            filter (\<lambda>x. Some (handle x) \<noteq> debounceTimer c) (timers w) \<and>
          fst (term_on_input c w) = c \<and>
          (\<forall>ms. fetched (advance ms (snd (term_on_input c w))) =
             fetched w @ map (\<lambda>x. request_of (callback x))
               (sort_key due (filter (\<lambda>x. due x \<le> now w + ms)
                  (filter (\<lambda>x. Some (handle x) \<noteq> debounceTimer c) (timers w)))))) \<and>
         (el_children (elements (doc (snd (gene_on_input gc gw))) (geneResultsContainer gc)) = [] \<and>
          fetched (snd (gene_on_input gc gw)) = fetched gw \<and>
          timers (snd (gene_on_input gc gw)) =
            filter (\<lambda>x. Some (handle x) \<noteq> geneDebounceTimer gc) (timers gw) \<and>
          fst (gene_on_input gc gw) = gc \<and>
          (\<forall>ms. fetched (advance ms (snd (gene_on_input gc gw))) =
             fetched gw @ map (\<lambda>x. request_of (callback x))
               (sort_key due (filter (\<lambda>x. due x \<le> now gw + ms)
                  (filter (\<lambda>x. Some (handle x) \<noteq> geneDebounceTimer gc) (timers gw))))))"
  using assms term_on_input_short_after [OF assms(1)] gene_on_input_short_after [OF assms(2)]
  by (simp add: term_on_input_short gene_on_input_short clearTimeout_timers)

lemma typed_cell_eq:
  "typed_cell =
     (term_a\<lparr>debounceTimer := Some 1\<rparr>,
      browser\<lparr>doc := set_value 1 '''' (set_value 0 ''cell'' similarity_page),
        timers := [\<lparr>handle = 1, due = 250, callback = TermLookup 0 1 2 ''cell''\<rparr>],
        nextHandle := 2\<rparr>)"
  by (simp add: typed_cell_def term_input_event_long term_a_def browser_def)

theorem short_query_clears_without_request_witness:
  "timers (snd typed_cell) = [\<lparr>handle = 1, due = 250, callback = TermLookup 0 1 2 ''cell''\<rparr>] \<and>
   timers (snd (term_input_event (fst typed_cell) ''ce'' (snd typed_cell))) = [] \<and>
   fetched (advance 1000 (snd (term_input_event (fst typed_cell) ''ce'' (snd typed_cell)))) = [] \<and>
   el_children (elements (doc (snd (term_input_event (fst typed_cell) ''ce'' (snd typed_cell)))) 2) = [] \<and>
   el_children (elements (doc (snd (gene_input_event gene_a ''T'' browser))) 7) = [] \<and>
   fetched (advance 1000 (snd (gene_input_event gene_a ''T'' browser))) = []"
proof -
  let ?c = "fst typed_cell"
  let ?w = "(snd typed_cell)\<lparr>doc := set_value (queryInput ?c) ''ce'' (doc (snd typed_cell))\<rparr>"
  let ?gw = "browser\<lparr>doc := set_value (geneQueryInput gene_a) ''T'' (doc browser)\<rparr>"
  have h1: "length (el_value (elements (doc ?w) (queryInput ?c))) < 3" by simp
  have h2: "length (el_value (elements (doc ?gw) (geneQueryInput gene_a))) < 2" by simp
  have f: "fetched ?w = []" "fetched ?gw = []" "resultsContainer ?c = 2"
    "geneResultsContainer gene_a = 7" "debounceTimer ?c = Some 1" "geneDebounceTimer gene_a = None"
    "timers (snd typed_cell) = [\<lparr>handle = 1, due = 250, callback = TermLookup 0 1 2 ''cell''\<rparr>]"
    "timers ?w = [\<lparr>handle = 1, due = 250, callback = TermLookup 0 1 2 ''cell''\<rparr>]"
    "timers ?gw = []"
    by (simp_all add: typed_cell_eq browser_def term_a_def gene_a_def)
  from short_query_clears_without_request [OF h1 h2] show ?thesis
    by (simp add: f term_input_event_def gene_input_event_def)
qed

subsection \<open>Debouncing\<close>

lemma mset_map_sort_key:
  "mset (map f (sort_key k xs)) = mset (map f xs)"
  by (metis mset_map mset_sort)

lemma mset_filter_split:
  "mset (map f (filter (\<lambda>x. \<not> (P x \<and> \<not> Q x)) xs)) =
     mset (map f (filter (\<lambda>x. \<not> P x) xs)) + mset (map f (filter (\<lambda>x. P x \<and> Q x) xs))"
  by (induction xs) auto

lemma burst_inv_init:
  assumes "timers w' = filter (\<lambda>x. Some (handle x) \<noteq> dt0) (timers w0) @
             [\<lparr>handle = nextHandle w0, due = now w0 + 250, callback = cb\<rparr>]"
    and "nextHandle w' = nextHandle w0 + 1" and "now w' = now w0" and "fetched w' = fetched w0"
  shows "burst_inv (filter (\<lambda>x. Some (handle x) \<noteq> dt0) (timers w0)) (fetched w0) (nextHandle w0)
           w' (Some (nextHandle w0)) cb"
  unfolding burst_inv_def
  using assms
  by (intro exI [of _ "nextHandle w0"] exI [of _ "\<lambda>x. True"] exI [of _ "[]"]) simp

lemma burst_inv_step:
  assumes inv: "burst_inv F log0 n0 w dt cb" and fresh: "\<forall>x \<in> set F. handle x < n0"
    and gap: "gap < 250"
    and t: "timers w' = filter (\<lambda>x. Some (handle x) \<noteq> dt) (timers (advance gap w)) @
             [\<lparr>handle = nextHandle (advance gap w), due = now (advance gap w) + 250, callback = cb'\<rparr>]"
    and n: "nextHandle w' = nextHandle (advance gap w) + 1"
    and c: "now w' = now (advance gap w)" and f: "fetched w' = fetched (advance gap w)"
  shows "burst_inv F log0 n0 w' (Some (nextHandle w)) cb'"
proof -
  from inv obtain h P new where dt: "dt = Some h" and h: "n0 \<le> h" "h < nextHandle w"
    and tw: "timers w = filter P F @ [\<lparr>handle = h, due = now w + 250, callback = cb\<rparr>]"
    and fired: "\<forall>x \<in> set F. \<not> P x \<longrightarrow> due x \<le> now w"
    and log: "fetched w = log0 @ new"
    and new: "mset new = mset (map (\<lambda>x. request_of (callback x)) (filter (\<lambda>x. \<not> P x) F))"
    unfolding burst_inv_def by blast
  let ?t = "now w + gap"
  let ?P = "\<lambda>x. P x \<and> \<not> due x \<le> ?t"
  let ?ready = "filter (\<lambda>x. P x \<and> due x \<le> ?t) F"
  have ready: "filter (\<lambda>x. due x \<le> ?t) (timers w) = ?ready"
    using gap by (simp add: tw conj_commute)
  have waiting: "filter (\<lambda>x. \<not> due x \<le> ?t) (timers w) =
      filter ?P F @ [\<lparr>handle = h, due = now w + 250, callback = cb\<rparr>]"
    using gap by (simp add: tw conj_commute)
  have cleared: "filter (\<lambda>x. Some (handle x) \<noteq> dt) (filter ?P F @
      [\<lparr>handle = h, due = now w + 250, callback = cb\<rparr>]) = filter ?P F"
  proof -
    have "\<forall>x \<in> set (filter ?P F). Some (handle x) \<noteq> dt"
      using fresh h dt by auto
    then have "filter (\<lambda>x. Some (handle x) \<noteq> dt) (filter ?P F) = filter ?P F"
      by (simp only: filter_True)
    then show ?thesis by (simp add: dt)
  qed
  have tw': "timers w' = filter ?P F @
      [\<lparr>handle = nextHandle w, due = now w' + 250, callback = cb'\<rparr>]"
  proof -
    have "timers (advance gap w) = filter ?P F @ [\<lparr>handle = h, due = now w + 250, callback = cb\<rparr>]"
      by (simp add: advance_eq waiting)
    with cleared have "filter (\<lambda>x. Some (handle x) \<noteq> dt) (timers (advance gap w)) = filter ?P F"
      by (simp only:)
    moreover have "nextHandle (advance gap w) = nextHandle w" "now (advance gap w) = now w + gap"
      by (simp_all add: advance_eq)
    ultimately show ?thesis
      using t c by (simp only:)
  qed
  have nw': "nextHandle w' = nextHandle w + 1" "now w' = ?t"
    using n c by (simp_all add: advance_eq)
  let ?new = "new @ map (\<lambda>x. request_of (callback x)) (sort_key due ?ready)"
  have log': "fetched w' = log0 @ ?new"
    using f by (simp add: advance_eq ready log)
  have new': "mset ?new = mset (map (\<lambda>x. request_of (callback x)) (filter (\<lambda>x. \<not> ?P x) F))"
    by (simp only: mset_append mset_map_sort_key new mset_filter_split [of _ P "\<lambda>x. due x \<le> ?t" F])
  have fired': "\<forall>x \<in> set F. \<not> ?P x \<longrightarrow> due x \<le> now w'"
    using fired nw' by auto
  from h nw' tw' log' new' fired' show ?thesis
    unfolding burst_inv_def
    by (intro exI [of _ "nextHandle w"] exI [of _ ?P] exI [of _ ?new]) simp
qed

lemma burst_inv_final:
  assumes inv: "burst_inv F log0 n0 w dt cb" and wait: "250 \<le> wait"
  shows "\<exists>new. fetched (advance wait w) = log0 @ new \<and>
           mset new = mset (map (\<lambda>x. request_of (callback x))
                              (filter (\<lambda>x. due x \<le> now w + wait) F)) + {#request_of cb#}"
proof -
  from inv obtain h P new where
        tw: "timers w = filter P F @ [\<lparr>handle = h, due = now w + 250, callback = cb\<rparr>]"
    and fired: "\<forall>x \<in> set F. \<not> P x \<longrightarrow> due x \<le> now w"
    and log: "fetched w = log0 @ new"
    and new: "mset new = mset (map (\<lambda>x. request_of (callback x)) (filter (\<lambda>x. \<not> P x) F))"
    unfolding burst_inv_def by blast
  let ?t = "now w + wait"
  let ?own = "\<lparr>handle = h, due = now w + 250, callback = cb\<rparr>"
  let ?ready = "filter (\<lambda>x. P x \<and> due x \<le> ?t) F @ [?own]"
  have ready: "filter (\<lambda>x. due x \<le> ?t) (timers w) = ?ready"
    using wait by (simp add: tw conj_commute)
  let ?new = "new @ map (\<lambda>x. request_of (callback x)) (sort_key due ?ready)"
  have log': "fetched (advance wait w) = log0 @ ?new"
    by (simp add: advance_eq ready log)
  have split: "filter (\<lambda>x. due x \<le> ?t) F = filter (\<lambda>x. \<not> (P x \<and> \<not> due x \<le> ?t)) F"
    using fired by (intro filter_cong) auto
  have "mset ?new =
      mset (map (\<lambda>x. request_of (callback x)) (filter (\<lambda>x. \<not> P x) F)) +
      mset (map (\<lambda>x. request_of (callback x)) (filter (\<lambda>x. P x \<and> due x \<le> ?t) F)) +
      {#request_of cb#}"
    by (simp add: mset_map_sort_key new)
  also have "\<dots> = mset (map (\<lambda>x. request_of (callback x)) (filter (\<lambda>x. due x \<le> ?t) F)) +
      {#request_of cb#}"
    by (simp only: split mset_filter_split [of _ P "\<lambda>x. due x \<le> ?t" F])
  finally show ?thesis using log' by blast
qed

lemma burst_inv_pending:
  assumes "burst_inv F log0 n0 w dt cb" and "\<forall>x \<in> set F. handle x < n0"
  shows "map callback (filter (\<lambda>x. n0 \<le> handle x) (timers w)) = [cb] \<and>
         (\<exists>new. fetched w = log0 @ new \<and>
                 mset new \<subseteq># mset (map (\<lambda>x. request_of (callback x)) F))"
proof -
  from assms(1) obtain h P new where h: "n0 \<le> h"
    and tw: "timers w = filter P F @ [\<lparr>handle = h, due = now w + 250, callback = cb\<rparr>]"
    and log: "fetched w = log0 @ new"
    and new: "mset new = mset (map (\<lambda>x. request_of (callback x)) (filter (\<lambda>x. \<not> P x) F))"
    unfolding burst_inv_def by blast
  from assms(2) have "filter (\<lambda>x. n0 \<le> handle x) (filter P F) = []"
    by (auto simp add: filter_empty_conv)
  with h tw have "map callback (filter (\<lambda>x. n0 \<le> handle x) (timers w)) = [cb]"
    by simp
  moreover have "mset new \<subseteq># mset (map (\<lambda>x. request_of (callback x)) F)"
    unfolding new by (simp add: image_mset_subseteq_mono multiset_filter_subset)
  ultimately show ?thesis using log by blast
qed

lemma burst_inv_quiet:
  assumes "burst_inv [] log0 n0 w dt cb" and "250 \<le> wait"
  shows "fetched w = log0 \<and> fetched (advance wait w) = log0 @ [request_of cb]"
proof -
  from burst_inv_pending [OF assms(1)] have "fetched w = log0" by auto
  moreover from burst_inv_final [OF assms] have "fetched (advance wait w) = log0 @ [request_of cb]"
    by auto
  ultimately show ?thesis by simp
qed

lemma burst_inv_summary:
  assumes inv: "burst_inv (filter (\<lambda>x. Some (handle x) \<noteq> dt0) ts) log0 n0 w dt cb"
    and fresh: "\<forall>x \<in> set ts. handle x < n0" and wait: "250 \<le> wait"
  shows "map callback (filter (\<lambda>x. n0 \<le> handle x) (timers w)) = [cb] \<and>
     (\<exists>new. fetched w = log0 @ new \<and>
        mset new \<subseteq># mset (map (\<lambda>x. request_of (callback x))
                         (filter (\<lambda>x. Some (handle x) \<noteq> dt0) ts))) \<and>
     (\<exists>new. fetched (advance wait w) = log0 @ new \<and>
        mset new = mset (map (\<lambda>x. request_of (callback x))
                         (filter (\<lambda>x. due x \<le> now w + wait)
                           (filter (\<lambda>x. Some (handle x) \<noteq> dt0) ts))) + {#request_of cb#}) \<and>
     ((\<forall>x \<in> set ts. Some (handle x) = dt0) \<longrightarrow>
        fetched w = log0 \<and> fetched (advance wait w) = log0 @ [request_of cb])"
proof -
  let ?F = "filter (\<lambda>x. Some (handle x) \<noteq> dt0) ts"
  from fresh have f: "\<forall>x \<in> set ?F. handle x < n0" by simp
  have q: "fetched w = log0 \<and> fetched (advance wait w) = log0 @ [request_of cb]"
    if "\<forall>x \<in> set ts. Some (handle x) = dt0"
  proof -
    from that have "?F = []" by (simp add: filter_empty_conv)
    with inv have "burst_inv [] log0 n0 w dt cb" by simp
    from burst_inv_quiet [OF this wait] show ?thesis .
  qed
  from burst_inv_pending [OF inv f] burst_inv_final [OF inv wait] q show ?thesis
    by blast
qed

lemma term_burst_inv:
  assumes "burst_inv F log0 n0 w (debounceTimer c)
             (TermLookup (queryInput c) (idInput c) (resultsContainer c) s)"
    and "\<forall>x \<in> set F. handle x < n0"
    and "\<forall>(gap, s') \<in> set es. gap < 250 \<and> 3 \<le> length s'"
  shows "burst_inv F log0 n0 (snd (term_burst c w es)) (debounceTimer (fst (term_burst c w es)))
           (TermLookup (queryInput c) (idInput c) (resultsContainer c) (last (s # map snd es)))"
  using assms
proof (induction es arbitrary: c w s)
  case Nil
  then show ?case by simp
next
  case (Cons e es)
  obtain gap s' where e: "e = (gap, s')" by (cases e)
  from Cons.prems e have g: "gap < 250" and l: "3 \<le> length s'"
    and rest: "\<forall>(gap, s') \<in> set es. gap < 250 \<and> 3 \<le> length s'"
    by simp_all
  obtain c' w' where ev: "term_input_event c s' (advance gap w) = (c', w')"
    by (cases "term_input_event c s' (advance gap w)")
  from ev term_input_event_long [OF l, of c "advance gap w"]
  have c': "c' = c\<lparr>debounceTimer := Some (nextHandle (advance gap w))\<rparr>"
    and w': "w' = snd (term_input_event c s' (advance gap w))"
    by simp_all
  have "burst_inv F log0 n0 w' (Some (nextHandle w)) (TermLookup (queryInput c) (idInput c) (resultsContainer c) s')"
    using Cons.prems(1,2) g unfolding w'
    by (rule burst_inv_step) (simp_all add: term_input_event_long [OF l])
  moreover have "nextHandle (advance gap w) = nextHandle w"
    by (simp add: advance_eq)
  ultimately have "burst_inv F log0 n0 w' (debounceTimer c') (TermLookup (queryInput c') (idInput c') (resultsContainer c') s')"
    by (simp add: c')
  from Cons.IH [OF this Cons.prems(2) rest]
  have "burst_inv F log0 n0 (snd (term_burst c' w' es)) (debounceTimer (fst (term_burst c' w' es)))
      (TermLookup (queryInput c) (idInput c) (resultsContainer c) (last (s' # map snd es)))"
    by (simp add: c')
  moreover have "term_burst c w (e # es) = term_burst c' w' es"
    using e ev by simp
  moreover have "last (s # map snd (e # es)) = last (s' # map snd es)"
    using e by simp
  ultimately show ?case
    by (simp only:)
qed

lemma gene_burst_inv:
  assumes "burst_inv F log0 n0 w (geneDebounceTimer c)
             (GeneLookup (geneQueryInput c) (geneResultsContainer c) s)"
    and "\<forall>x \<in> set F. handle x < n0"
    and "\<forall>(gap, s') \<in> set es. gap < 250 \<and> 2 \<le> length s'"
  shows "burst_inv F log0 n0 (snd (gene_burst c w es)) (geneDebounceTimer (fst (gene_burst c w es)))
           (GeneLookup (geneQueryInput c) (geneResultsContainer c) (last (s # map snd es)))"
  using assms
proof (induction es arbitrary: c w s)
  case Nil
  then show ?case by simp
next
  case (Cons e es)
  obtain gap s' where e: "e = (gap, s')" by (cases e)
  from Cons.prems e have g: "gap < 250" and l: "2 \<le> length s'"
    and rest: "\<forall>(gap, s') \<in> set es. gap < 250 \<and> 2 \<le> length s'"
    by simp_all
  obtain c' w' where ev: "gene_input_event c s' (advance gap w) = (c', w')"
    by (cases "gene_input_event c s' (advance gap w)")
  from ev gene_input_event_long [OF l, of c "advance gap w"]
  have c': "c' = c\<lparr>geneDebounceTimer := Some (nextHandle (advance gap w))\<rparr>"
    and w': "w' = snd (gene_input_event c s' (advance gap w))"
    by simp_all
  have "burst_inv F log0 n0 w' (Some (nextHandle w)) (GeneLookup (geneQueryInput c) (geneResultsContainer c) s')"
    using Cons.prems(1,2) g unfolding w'
    by (rule burst_inv_step) (simp_all add: gene_input_event_long [OF l])
  moreover have "nextHandle (advance gap w) = nextHandle w"
    by (simp add: advance_eq)
  ultimately have "burst_inv F log0 n0 w' (geneDebounceTimer c') (GeneLookup (geneQueryInput c') (geneResultsContainer c') s')"
    by (simp add: c')
  from Cons.IH [OF this Cons.prems(2) rest]
  have "burst_inv F log0 n0 (snd (gene_burst c' w' es)) (geneDebounceTimer (fst (gene_burst c' w' es)))
      (GeneLookup (geneQueryInput c) (geneResultsContainer c) (last (s' # map snd es)))"
    by (simp add: c')
  moreover have "gene_burst c w (e # es) = gene_burst c' w' es"
    using e ev by simp
  moreover have "last (s # map snd (e # es)) = last (s' # map snd es)"
    using e by simp
  ultimately show ?case
    by (simp only:)
qed

lemma term_typing_inv:
  assumes "\<forall>x \<in> set (timers w). handle x < nextHandle w"
    and "3 \<le> length s" and "\<forall>(gap, s') \<in> set es. gap < 250 \<and> 3 \<le> length s'"
  shows "burst_inv (filter (\<lambda>x. Some (handle x) \<noteq> debounceTimer c) (timers w)) (fetched w)
           (nextHandle w) (snd (term_typing c w s es)) (debounceTimer (fst (term_typing c w s es)))
           (TermLookup (queryInput c) (idInput c) (resultsContainer c) (last (s # map snd es)))"
proof -
  let ?F = "filter (\<lambda>x. Some (handle x) \<noteq> debounceTimer c) (timers w)"
  obtain c' w' where ev: "term_input_event c s w = (c', w')"
    by (cases "term_input_event c s w")
  from ev term_input_event_long [OF assms(2), of c w]
  have c': "c' = c\<lparr>debounceTimer := Some (nextHandle w)\<rparr>"
    and w': "w' = snd (term_input_event c s w)"
    by simp_all
  have "burst_inv ?F (fetched w) (nextHandle w) w' (Some (nextHandle w)) (TermLookup (queryInput c) (idInput c) (resultsContainer c) s)"
    unfolding w' by (rule burst_inv_init) (simp_all add: term_input_event_long [OF assms(2)])
  then have i: "burst_inv ?F (fetched w) (nextHandle w) w' (debounceTimer c') (TermLookup (queryInput c') (idInput c') (resultsContainer c') s)"
    by (simp add: c')
  from assms(1) have f: "\<forall>x \<in> set ?F. handle x < nextHandle w" by simp
  from term_burst_inv [OF i f assms(3)]
  have "burst_inv ?F (fetched w) (nextHandle w) (snd (term_burst c' w' es))
      (debounceTimer (fst (term_burst c' w' es))) (TermLookup (queryInput c) (idInput c) (resultsContainer c) (last (s # map snd es)))"
    by (simp add: c')
  moreover have "term_typing c w s es = term_burst c' w' es"
    using ev by (simp add: term_typing_def)
  ultimately show ?thesis
    by (simp only:)
qed

lemma gene_typing_inv:
  assumes "\<forall>x \<in> set (timers w). handle x < nextHandle w"
    and "2 \<le> length s" and "\<forall>(gap, s') \<in> set es. gap < 250 \<and> 2 \<le> length s'"
  shows "burst_inv (filter (\<lambda>x. Some (handle x) \<noteq> geneDebounceTimer c) (timers w)) (fetched w)
           (nextHandle w) (snd (gene_typing c w s es))
           (geneDebounceTimer (fst (gene_typing c w s es)))
           (GeneLookup (geneQueryInput c) (geneResultsContainer c) (last (s # map snd es)))"
proof -
  let ?F = "filter (\<lambda>x. Some (handle x) \<noteq> geneDebounceTimer c) (timers w)"
  obtain c' w' where ev: "gene_input_event c s w = (c', w')"
    by (cases "gene_input_event c s w")
  from ev gene_input_event_long [OF assms(2), of c w]
  have c': "c' = c\<lparr>geneDebounceTimer := Some (nextHandle w)\<rparr>"
    and w': "w' = snd (gene_input_event c s w)"
    by simp_all
  have "burst_inv ?F (fetched w) (nextHandle w) w' (Some (nextHandle w)) (GeneLookup (geneQueryInput c) (geneResultsContainer c) s)"
    unfolding w' by (rule burst_inv_init) (simp_all add: gene_input_event_long [OF assms(2)])
  then have i: "burst_inv ?F (fetched w) (nextHandle w) w' (geneDebounceTimer c') (GeneLookup (geneQueryInput c') (geneResultsContainer c') s)"
    by (simp add: c')
  from assms(1) have f: "\<forall>x \<in> set ?F. handle x < nextHandle w" by simp
  from gene_burst_inv [OF i f assms(3)]
  have "burst_inv ?F (fetched w) (nextHandle w) (snd (gene_burst c' w' es))
      (geneDebounceTimer (fst (gene_burst c' w' es))) (GeneLookup (geneQueryInput c) (geneResultsContainer c) (last (s # map snd es)))"
    by (simp add: c')
  moreover have "gene_typing c w s es = gene_burst c' w' es"
    using ev by (simp add: gene_typing_def)
  ultimately show ?thesis
    by (simp only:)
qed

lemma term_burst_now:
  assumes "\<forall>(gap, s') \<in> set es. gap < 250 \<and> 3 \<le> length s'"
  shows "now (snd (term_burst c w es)) = now w + sum_list (map fst es)"
  using assms
proof (induction es arbitrary: c w)
  case Nil
  then show ?case by simp
next
  case (Cons e es)
  obtain gap s' where e: "e = (gap, s')" by (cases e)
  from Cons.prems e have l: "3 \<le> length s'"
    and rest: "\<forall>(gap, s') \<in> set es. gap < 250 \<and> 3 \<le> length s'"
    by simp_all
  from Cons.IH [OF rest] e show ?case
    by (simp add: term_input_event_long [OF l] advance_eq)
qed

lemma gene_burst_now:
  assumes "\<forall>(gap, s') \<in> set es. gap < 250 \<and> 2 \<le> length s'"
  shows "now (snd (gene_burst c w es)) = now w + sum_list (map fst es)"
  using assms
proof (induction es arbitrary: c w)
  case Nil
  then show ?case by simp
next
  case (Cons e es)
  obtain gap s' where e: "e = (gap, s')" by (cases e)
  from Cons.prems e have l: "2 \<le> length s'"
    and rest: "\<forall>(gap, s') \<in> set es. gap < 250 \<and> 2 \<le> length s'"
    by simp_all
  from Cons.IH [OF rest] e show ?case
    by (simp add: gene_input_event_long [OF l] advance_eq)
qed

lemma term_typing_now:
  assumes "3 \<le> length s" and "\<forall>(gap, s') \<in> set es. gap < 250 \<and> 3 \<le> length s'"
  shows "now (snd (term_typing c w s es)) = now w + sum_list (map fst es)"
  using term_burst_now [OF assms(2)]
  by (simp add: term_typing_def term_input_event_long [OF assms(1)])

lemma gene_typing_now:
  assumes "2 \<le> length s" and "\<forall>(gap, s') \<in> set es. gap < 250 \<and> 2 \<le> length s'"
  shows "now (snd (gene_typing c w s es)) = now w + sum_list (map fst es)"
  using gene_burst_now [OF assms(2)]
  by (simp add: gene_typing_def gene_input_event_long [OF assms(1)])

text \<open>
  Claim C5. A burst on one dispatcher: a first input event, then further events, each
  less than 250 ms after the one before it, every query at or above the minimum length
  (three for terms, two for genes). Other timers may be pending at the start, each with
  a handle that \<^verbatim>\<open>setTimeout\<close> has given out before. Of the timers scheduled during the
  burst only the lookup for the last query is pending at its end; every request made
  during the burst is the request of another pending timer; and once 250 ms or more
  have passed since the last event, the requests made since the start are those of the
  other timers that came due by then and exactly one more: the endpoint followed by the
  URL-encoded text of the last event. When no other timer was pending, no request is
  made during the burst and that request is the only one after it.
\<close>

theorem burst_issues_one_request:
  assumes "\<forall>x \<in> set (timers w). handle x < nextHandle w"
    and "3 \<le> length s" and "\<forall>(gap, s') \<in> set es. gap < 250 \<and> 3 \<le> length s'"
    and "\<forall>x \<in> set (timers gw). handle x < nextHandle gw"
    and "2 \<le> length gs" and "\<forall>(gap, s') \<in> set ges. gap < 250 \<and> 2 \<le> length s'"
    and "250 \<le> wait"
  shows
   "(map callback (filter (\<lambda>x. nextHandle w \<le> handle x) (timers (snd (term_typing c w s es)))) =
       [TermLookup (queryInput c) (idInput c) (resultsContainer c) (last (s # map snd es))] \<and>
     (\<exists>new. fetched (snd (term_typing c w s es)) = fetched w @ new \<and>
        mset new \<subseteq># mset (map (\<lambda>x. request_of (callback x))
                         (filter (\<lambda>x. Some (handle x) \<noteq> debounceTimer c) (timers w)))) \<and>
     (\<exists>new. fetched (advance wait (snd (term_typing c w s es))) = fetched w @ new \<and>
        mset new = mset (map (\<lambda>x. request_of (callback x))
                         (filter (\<lambda>x. due x \<le> now w + sum_list (map fst es) + wait)
                           (filter (\<lambda>x. Some (handle x) \<noteq> debounceTimer c) (timers w)))) +
                   {#''/api/search-terms?q='' @ encodeURIComponent (last (s # map snd es))#}) \<and>
     ((\<forall>x \<in> set (timers w). Some (handle x) = debounceTimer c) \<longrightarrow>
        fetched (snd (term_typing c w s es)) = fetched w \<and>
        fetched (advance wait (snd (term_typing c w s es))) =
          fetched w @ [''/api/search-terms?q='' @ encodeURIComponent (last (s # map snd es))])) \<and>
    (map callback (filter (\<lambda>x. nextHandle gw \<le> handle x) (timers (snd (gene_typing gc gw gs ges)))) =
       [GeneLookup (geneQueryInput gc) (geneResultsContainer gc) (last (gs # map snd ges))] \<and>
     (\<exists>new. fetched (snd (gene_typing gc gw gs ges)) = fetched gw @ new \<and>
        mset new \<subseteq># mset (map (\<lambda>x. request_of (callback x))
                         (filter (\<lambda>x. Some (handle x) \<noteq> geneDebounceTimer gc) (timers gw)))) \<and>
     (\<exists>new. fetched (advance wait (snd (gene_typing gc gw gs ges))) = fetched gw @ new \<and>
        mset new = mset (map (\<lambda>x. request_of (callback x))
                         (filter (\<lambda>x. due x \<le> now gw + sum_list (map fst ges) + wait)
                           (filter (\<lambda>x. Some (handle x) \<noteq> geneDebounceTimer gc) (timers gw)))) +
                   {#''/api/search-genes?q='' @ encodeURIComponent (last (gs # map snd ges))#}) \<and>
     ((\<forall>x \<in> set (timers gw). Some (handle x) = geneDebounceTimer gc) \<longrightarrow>
        fetched (snd (gene_typing gc gw gs ges)) = fetched gw \<and>
        fetched (advance wait (snd (gene_typing gc gw gs ges))) =
          fetched gw @ [''/api/search-genes?q='' @ encodeURIComponent (last (gs # map snd ges))]))"
proof (rule conjI)
  from burst_inv_summary [OF term_typing_inv [OF assms(1,2,3), where c = c] assms(1,7),
      unfolded term_typing_now [OF assms(2,3)] request_of.simps]
  show "map callback (filter (\<lambda>x. nextHandle w \<le> handle x) (timers (snd (term_typing c w s es)))) =
       [TermLookup (queryInput c) (idInput c) (resultsContainer c) (last (s # map snd es))] \<and>
     (\<exists>new. fetched (snd (term_typing c w s es)) = fetched w @ new \<and>
        mset new \<subseteq># mset (map (\<lambda>x. request_of (callback x))
                         (filter (\<lambda>x. Some (handle x) \<noteq> debounceTimer c) (timers w)))) \<and>
     (\<exists>new. fetched (advance wait (snd (term_typing c w s es))) = fetched w @ new \<and>
        mset new = mset (map (\<lambda>x. request_of (callback x))
                         (filter (\<lambda>x. due x \<le> now w + sum_list (map fst es) + wait)
                           (filter (\<lambda>x. Some (handle x) \<noteq> debounceTimer c) (timers w)))) +
                   {#''/api/search-terms?q='' @ encodeURIComponent (last (s # map snd es))#}) \<and>
     ((\<forall>x \<in> set (timers w). Some (handle x) = debounceTimer c) \<longrightarrow>
        fetched (snd (term_typing c w s es)) = fetched w \<and>
        fetched (advance wait (snd (term_typing c w s es))) =
          fetched w @ [''/api/search-terms?q='' @ encodeURIComponent (last (s # map snd es))])"
    .
next
  from burst_inv_summary [OF gene_typing_inv [OF assms(4,5,6), where c = gc] assms(4,7),
      unfolded gene_typing_now [OF assms(5,6)] request_of.simps]
  show "map callback (filter (\<lambda>x. nextHandle gw \<le> handle x) (timers (snd (gene_typing gc gw gs ges)))) =
       [GeneLookup (geneQueryInput gc) (geneResultsContainer gc) (last (gs # map snd ges))] \<and>
     (\<exists>new. fetched (snd (gene_typing gc gw gs ges)) = fetched gw @ new \<and>
        mset new \<subseteq># mset (map (\<lambda>x. request_of (callback x))
                         (filter (\<lambda>x. Some (handle x) \<noteq> geneDebounceTimer gc) (timers gw)))) \<and>
     (\<exists>new. fetched (advance wait (snd (gene_typing gc gw gs ges))) = fetched gw @ new \<and>
        mset new = mset (map (\<lambda>x. request_of (callback x))
                         (filter (\<lambda>x. due x \<le> now gw + sum_list (map fst ges) + wait)
                           (filter (\<lambda>x. Some (handle x) \<noteq> geneDebounceTimer gc) (timers gw)))) +
                   {#''/api/search-genes?q='' @ encodeURIComponent (last (gs # map snd ges))#}) \<and>
     ((\<forall>x \<in> set (timers gw). Some (handle x) = geneDebounceTimer gc) \<longrightarrow>
        fetched (snd (gene_typing gc gw gs ges)) = fetched gw \<and>
        fetched (advance wait (snd (gene_typing gc gw gs ges))) =
          fetched gw @ [''/api/search-genes?q='' @ encodeURIComponent (last (gs # map snd ges))])"
    .
qed

lemma busy_eq:
  "busy = browser\<lparr>doc := set_value 6 ''TP'' similarity_page,
            timers := [\<lparr>handle = 1, due = 250, callback = GeneLookup 6 7 ''TP''\<rparr>],
            nextHandle := 2\<rparr>"
  by (simp add: busy_def gene_input_event_long gene_a_def browser_def)

lemma encode_cell_c: "encodeURIComponent ''cell c'' = ''cell%20c''"
  by (simp add: encodeURIComponent_def encodeUnit_def uriUnreserved_def percentByte_def hexDigit_def)

lemma encode_tp: "encodeURIComponent ''TP'' = ''TP''" "encodeURIComponent ''TP5'' = ''TP5''"
  by (simp_all add: encodeURIComponent_def encodeUnit_def uriUnreserved_def)

theorem burst_issues_one_request_witness:
  "mset (fetched (advance 250 (snd (term_typing term_a busy ''cel''
      [(100, ''cell''), (120, ''cell ''), (90, ''cell c'')])))) =
     {#''/api/search-genes?q=TP'', ''/api/search-terms?q=cell%20c''#} \<and>
   fetched (advance 250 (snd (term_typing term_a browser ''cel''
      [(100, ''cell''), (120, ''cell ''), (90, ''cell c'')]))) = [''/api/search-terms?q=cell%20c''] \<and>
   fetched (snd (term_typing term_a browser ''cel''
      [(100, ''cell''), (120, ''cell ''), (90, ''cell c'')])) = [] \<and>
   fetched (advance 300 (snd (gene_typing gene_a browser ''TP''
      [(249, ''TP5'')]))) = [''/api/search-genes?q=TP5'']"
proof -
  have h1: "\<forall>x \<in> set (timers browser). handle x < nextHandle browser"
    and b1: "\<forall>x \<in> set (timers busy). handle x < nextHandle busy"
    by (simp_all add: browser_def busy_eq)
  have h2: "3 \<le> length ''cel''" and h5: "2 \<le> length ''TP''" by simp_all
  have h3: "\<forall>(gap, s') \<in> set [(100, ''cell''), (120, ''cell ''), (90, ''cell c'')].
      gap < (250::nat) \<and> 3 \<le> length s'" by simp
  have h6: "\<forall>(gap, s') \<in> set [(249, ''TP5'')]. gap < (250::nat) \<and> 2 \<le> length s'" by simp
  have q: "\<forall>x \<in> set (timers browser). Some (handle x) = debounceTimer term_a"
    "\<forall>x \<in> set (timers browser). Some (handle x) = geneDebounceTimer gene_a"
    "fetched browser = []"
    by (simp_all add: browser_def)
  have f: "fetched busy = []" "now busy = 0" "debounceTimer term_a = None"
    "timers busy = [\<lparr>handle = 1, due = 250, callback = GeneLookup 6 7 ''TP''\<rparr>]"
    by (simp_all add: busy_eq browser_def term_a_def)
  from burst_issues_one_request [OF b1 h2 h3 h1 h5 h6, of 250 term_a gene_a]
  have "mset (fetched (advance 250 (snd (term_typing term_a busy ''cel''
      [(100, ''cell''), (120, ''cell ''), (90, ''cell c'')])))) =
     {#''/api/search-genes?q=TP'', ''/api/search-terms?q=cell%20c''#}"
    by (auto simp add: f encode_cell_c encode_tp)
  moreover from burst_issues_one_request [OF h1 h2 h3 h1 h5 h6, of 250 term_a gene_a] q
  have "fetched (advance 250 (snd (term_typing term_a browser ''cel''
      [(100, ''cell''), (120, ''cell ''), (90, ''cell c'')]))) = [''/api/search-terms?q=cell%20c'']"
    "fetched (snd (term_typing term_a browser ''cel''
      [(100, ''cell''), (120, ''cell ''), (90, ''cell c'')])) = []"
    by (simp_all add: encode_cell_c)
  moreover from burst_issues_one_request [OF h1 h2 h3 h1 h5 h6, of 300 term_a gene_a] q
  have "fetched (advance 300 (snd (gene_typing gene_a browser ''TP''
      [(249, ''TP5'')]))) = [''/api/search-genes?q=TP5'']"
    by (simp add: encode_tp)
  ultimately show ?thesis by simp
qed

subsection \<open>Rendering and selecting\<close>

lemma value_document_click [simp]:
  "el_value (elements (document_click_listeners ls d) x) = el_value (elements d x)"
  by (induction ls d rule: document_click_listeners.induct) (simp_all add: on_document_click_def)

lemma children_on_document_click:
  "el_children (elements d r) = [] \<Longrightarrow>
   el_children (elements (on_document_click r' a b d) r) = []"
  by (cases "r = r'") (simp_all add: on_document_click_def)

lemma children_document_click:
  "el_children (elements d r) = [] \<Longrightarrow>
   el_children (elements (document_click_listeners ls d) r) = []"
  by (induction ls d rule: document_click_listeners.induct)
     (simp_all add: children_on_document_click)

lemma children_foldl_term:
  "el_children (elements (foldl (\<lambda>d' t. appendChild r (Anchor (term_item q i r t)) d') d ts) r) =
   el_children (elements d r) @ map (\<lambda>t. Anchor (term_item q i r t)) ts"
  by (induction ts arbitrary: d) (simp_all add: appendChild_def)

lemma children_foldl_gene:
  "el_children (elements (foldl (\<lambda>d' g. appendChild r (Anchor (gene_item q r g)) d') d gs) r) =
   el_children (elements d r) @ map (\<lambda>g. Anchor (gene_item q r g)) gs"
  by (induction gs arbitrary: d) (simp_all add: appendChild_def)

lemma term_on_data_children:
  "el_children (elements (term_on_data q i r results d) r) =
     (if results = [] then [no_results] else map (\<lambda>t. Anchor (term_item q i r t)) results)"
  by (simp add: term_on_data_def children_foldl_term)

lemma gene_on_data_children:
  "el_children (elements (gene_on_data q r results d) r) =
     (if results = [] then [no_results] else map (\<lambda>g. Anchor (gene_item q r g)) results)"
  by (simp add: gene_on_data_def children_foldl_gene)
lemma strip_newlines_clean:
  "CHR 0x0A \<notin> set v \<Longrightarrow> CHR 0x0D \<notin> set v \<Longrightarrow> strip_newlines v = v"
  unfolding strip_newlines_def by (rule filter_True) auto

lemma value_set_text_value [simp]:
  "el_value (elements (set_text_value r v d) r) = strip_newlines v"
  by (simp add: set_text_value_def)

lemma value_set_text_value_other [simp]:
  "x \<noteq> r \<Longrightarrow> el_value (elements (set_text_value r v d) x) = el_value (elements d x)"
  by (simp add: set_text_value_def)

lemma children_set_text_value [simp]:
  "el_children (elements (set_text_value r v d) x) = el_children (elements d x)"
  by (simp add: set_text_value_def)

text \<open>
  Claim C8 as stated fails for a result whose name holds a line feed: the entry rendered
  for it, once selected, leaves the query field holding the display string without the
  line feed, which is not the string made of the id, \<^verbatim>\<open> - \<close> and the name.
\<close>

theorem line_feed_in_name_is_dropped:
  "el_children (elements (term_on_data 0 1 2 [broken_name] similarity_page) 2) ! 0 =
     Anchor (term_item 0 1 2 broken_name) \<and>
   el_value (elements (select_entry (click_listener (term_item 0 1 2 broken_name)) []
      (term_on_data 0 1 2 [broken_name] similarity_page)) 0) = ''GO:1 - cellcycle'' \<and>
   el_value (elements (select_entry (click_listener (term_item 0 1 2 broken_name)) []
      (term_on_data 0 1 2 [broken_name] similarity_page)) 0) \<noteq>
     term_id broken_name @ '' - '' @ term_name broken_name"
  by (simp add: term_on_data_children select_entry_def term_item_def broken_name_def
      strip_newlines_def)

text \<open>
  Claim C8, amended. The \<open>n\<close>-th entry rendered from a term response is the anchor made
  for the \<open>n\<close>-th result. Selecting it (its own listener, then the document's click
  listeners, whatever their tests give) leaves the identifier field holding exactly the
  result's id and the results container without children; the query field, being
  another element than the identifier field, holds the string made of the id, \<^verbatim>\<open> - \<close>
  and the name with its line feeds and carriage returns dropped, which is that very
  string when the id and the name hold none. Selecting an entry rendered from a gene
  response puts the symbol, with its line breaks dropped, into the query field, empties
  the results container, and changes the value of no other element: there is no
  identifier field that it sets.
\<close>

theorem selecting_an_entry:
  assumes "n < length results" and "m < length genes"
  shows "(el_children (elements (term_on_data q i r results d) r) ! n =
            Anchor (term_item q i r (results ! n)) \<and>
          (\<forall>ls d'.
             el_value (elements
               (select_entry (click_listener (term_item q i r (results ! n))) ls d') i) =
               term_id (results ! n) \<and>
             (q \<noteq> i \<longrightarrow>
              el_value (elements
                (select_entry (click_listener (term_item q i r (results ! n))) ls d') q) =
                strip_newlines (term_id (results ! n) @ '' - '' @ term_name (results ! n))) \<and>
             (q \<noteq> i \<and>
              CHR 0x0A \<notin> set (term_id (results ! n) @ term_name (results ! n)) \<and>
              CHR 0x0D \<notin> set (term_id (results ! n) @ term_name (results ! n)) \<longrightarrow>
              el_value (elements
                (select_entry (click_listener (term_item q i r (results ! n))) ls d') q) =
                term_id (results ! n) @ '' - '' @ term_name (results ! n)) \<and>
             el_children (elements
               (select_entry (click_listener (term_item q i r (results ! n))) ls d') r) = [])) \<and>
         (el_children (elements (gene_on_data gq gr genes d) gr) ! m =
            Anchor (gene_item gq gr (genes ! m)) \<and>
          (\<forall>ls d'.
             el_value (elements
               (select_entry (click_listener (gene_item gq gr (genes ! m))) ls d') gq) =
               strip_newlines (gene_symbol (genes ! m)) \<and>
             (CHR 0x0A \<notin> set (gene_symbol (genes ! m)) \<and>
              CHR 0x0D \<notin> set (gene_symbol (genes ! m)) \<longrightarrow>
              el_value (elements
                (select_entry (click_listener (gene_item gq gr (genes ! m))) ls d') gq) =
                gene_symbol (genes ! m)) \<and>
             el_children (elements
               (select_entry (click_listener (gene_item gq gr (genes ! m))) ls d') gr) = [] \<and>
             (\<forall>x. x \<noteq> gq \<longrightarrow>
               el_value (elements
                 (select_entry (click_listener (gene_item gq gr (genes ! m))) ls d') x) =
                 el_value (elements d' x))))"
proof -
  from assms have ne: "results \<noteq> []" "genes \<noteq> []" by auto
  have t1: "el_children (elements (term_on_data q i r results d) r) ! n =
      Anchor (term_item q i r (results ! n))"
    using assms(1) ne by (simp add: term_on_data_children)
  have g1: "el_children (elements (gene_on_data gq gr genes d) gr) ! m =
      Anchor (gene_item gq gr (genes ! m))"
    using assms(2) ne by (simp add: gene_on_data_children)
  have t2: "el_value (elements
      (select_entry (click_listener (term_item q i r t)) ls d') i) = term_id t" for t ls d'
    by (simp add: select_entry_def term_item_def)
  have t3: "q \<noteq> i \<longrightarrow> el_value (elements
      (select_entry (click_listener (term_item q i r t)) ls d') q) =
        strip_newlines (term_id t @ '' - '' @ term_name t)" for t ls d'
    by (simp add: select_entry_def term_item_def)
  have c: "strip_newlines (term_id t @ '' - '' @ term_name t) =
      term_id t @ '' - '' @ term_name t"
    if "CHR 0x0A \<notin> set (term_id t @ term_name t)" "CHR 0x0D \<notin> set (term_id t @ term_name t)"
    for t
    using that by (intro strip_newlines_clean) simp_all
  have t5: "q \<noteq> i \<and> CHR 0x0A \<notin> set (term_id t @ term_name t) \<and>
      CHR 0x0D \<notin> set (term_id t @ term_name t) \<longrightarrow>
      el_value (elements
        (select_entry (click_listener (term_item q i r t)) ls d') q) =
        term_id t @ '' - '' @ term_name t" for t ls d'
    using t3 [of t ls d'] c [of t] by simp
  have t4: "el_children (elements
      (select_entry (click_listener (term_item q i r t)) ls d') r) = []" for t ls d'
    by (simp add: select_entry_def term_item_def children_document_click)
  have g2: "el_value (elements
      (select_entry (click_listener (gene_item gq gr g)) ls d') gq) =
        strip_newlines (gene_symbol g)" for g ls d'
    by (simp add: select_entry_def gene_item_def)
  have g5: "CHR 0x0A \<notin> set (gene_symbol g) \<and> CHR 0x0D \<notin> set (gene_symbol g) \<longrightarrow>
      el_value (elements
        (select_entry (click_listener (gene_item gq gr g)) ls d') gq) = gene_symbol g"
    for g ls d'
    using g2 [of g ls d'] by (simp add: strip_newlines_clean)
  have g3: "el_children (elements
      (select_entry (click_listener (gene_item gq gr g)) ls d') gr) = []" for g ls d'
    by (simp add: select_entry_def gene_item_def children_document_click)
  have g4: "x \<noteq> gq \<longrightarrow> el_value (elements
      (select_entry (click_listener (gene_item gq gr g)) ls d') x) = el_value (elements d' x)"
    for g ls d' x
    by (simp add: select_entry_def gene_item_def)
  show ?thesis
  proof (intro conjI allI)
    show "el_children (elements (term_on_data q i r results d) r) ! n =
        Anchor (term_item q i r (results ! n))" by (rule t1)
    show "el_children (elements (gene_on_data gq gr genes d) gr) ! m =
        Anchor (gene_item gq gr (genes ! m))" by (rule g1)
  qed (rule t2 t3 t4 t5 g2 g3 g4 g5)+
qed

theorem selecting_an_entry_witness:
  "el_value (elements (select_entry (click_listener (term_item 0 1 2 (two_terms ! 0)))
      [(2, False, False), (5, False, False)] (term_on_data 0 1 2 two_terms similarity_page)) 1) =
     ''GO:0008150'' \<and>
   el_value (elements (select_entry (click_listener (term_item 0 1 2 (two_terms ! 0)))
      [(2, False, False), (5, False, False)] (term_on_data 0 1 2 two_terms similarity_page)) 0) =
     ''GO:0008150 - biological_process'' \<and>
   el_children (elements (select_entry (click_listener (term_item 0 1 2 (two_terms ! 0)))
      [(2, False, False), (5, False, False)] (term_on_data 0 1 2 two_terms similarity_page)) 2) = [] \<and>
   el_value (elements (select_entry (click_listener (gene_item 6 7 (two_genes ! 1)))
      [(7, False, False)] (gene_on_data 6 7 two_genes similarity_page)) 6) = ''TP63'' \<and>
   el_value (elements (select_entry (click_listener (gene_item 6 7 (two_genes ! 1)))
      [(7, False, False)] (gene_on_data 6 7 two_genes similarity_page)) 1) =
     el_value (elements (gene_on_data 6 7 two_genes similarity_page) 1) \<and>
   el_value (elements (select_entry (click_listener (term_item 0 1 2 ([broken_name] ! 0)))
      [] similarity_page) 0) = ''GO:1 - cellcycle''"
proof -
  have n: "0 < length two_terms" and m: "1 < length two_genes" and b: "0 < length [broken_name]"
    by (simp_all add: two_terms_def two_genes_def)
  have ne: "(0::nat) \<noteq> 1" "(1::nat) \<noteq> 6" by simp_all
  have v: "term_id (two_terms ! 0) = ''GO:0008150''"
    "term_name (two_terms ! 0) = ''biological_process''"
    "gene_symbol (two_genes ! 1) = ''TP63''"
    by (simp_all add: two_terms_def two_genes_def)
  have s: "strip_newlines (term_id broken_name @ '' - '' @ term_name broken_name) =
      ''GO:1 - cellcycle''"
    by (simp add: broken_name_def strip_newlines_def)
  from selecting_an_entry [OF n m, of 0 1 2 similarity_page 6 7]
    selecting_an_entry [OF b m, of 0 1 2 similarity_page 6 7] ne v s show ?thesis
    by (simp add: strip_newlines_def)
qed

section \<open>Properties of the form mode controller and the submit fallback\<close>

lemma updateFormVisibility_unchecked:
  "checkedMode d = None \<Longrightarrow> updateFormVisibility c d = Throw TypeError d"
  by (simp add: updateFormVisibility_def)

lemma on_submit_unchecked:
  "checkedMode d = None \<Longrightarrow> on_submit d = Normal d"
  by (simp add: on_submit_def)

text \<open>
  Claim C6. On the example page with no mode radio checked, the submit listener returns
  without a change, but \<^verbatim>\<open>updateFormVisibility\<close> throws a \<^verbatim>\<open>TypeError\<close> at its first
  statement, and so does the \<^verbatim>\<open>DOMContentLoaded\<close> listener that calls it.
\<close>

theorem updateFormVisibility_throws_when_unchecked:
  "checkedMode unchecked_page = None \<and>
   onDOMContentLoaded unchecked_page =
     Throw TypeError
       (Some \<lparr>termInputsContainer = 10, geneInputsContainer = 11,
              termQueryInputs = [0, 3], geneQueryInputs = [6, 8]\<rparr>, unchecked_page) \<and>
   updateFormVisibility
     \<lparr>termInputsContainer = 10, geneInputsContainer = 11,
      termQueryInputs = [0, 3], geneQueryInputs = [6, 8]\<rparr> unchecked_page =
     Throw TypeError unchecked_page \<and>
   on_submit unchecked_page = Normal unchecked_page"
proof -
  have c: "checkedMode unchecked_page = None"
    by (simp add: unchecked_page_def)
  have g: "getElementById unchecked_page ''term-inputs'' = Some 10"
    "getElementById unchecked_page ''gene-inputs'' = Some 11"
    "textInputs unchecked_page 10 = [0, 3]" "textInputs unchecked_page 11 = [6, 8]"
    by (simp_all add: unchecked_page_def similarity_page_def)
  from c g show ?thesis
    by (simp add: onDOMContentLoaded_def updateFormVisibility_unchecked on_submit_unchecked)
qed

lemma fun_upd_restore: "a \<noteq> b \<Longrightarrow> (f(a := x))(b := f b) = f(a := x)"
  by (simp add: fun_eq_iff)

lemma on_submit_term:
  assumes "checkedMode d = Some mode" and "el_value (elements d mode) = ''term''"
    and "getElementById d ''term_a_id'' = Some a" and "getElementById d ''term_b_id'' = Some b"
    and "getElementById d ''term_a_query'' = Some qa"
    and "getElementById d ''term_b_query'' = Some qb"
    and "distinct [a, b, qa, qb]"
  shows "on_submit d =
            Normal (d\<lparr>elements := (elements d)
              (a := (elements d a)\<lparr>el_value :=
                 (if el_value (elements d a) = '''' then el_value (elements d qa)
                  else el_value (elements d a))\<rparr>,
               b := (elements d b)\<lparr>el_value :=
                 (if el_value (elements d b) = '''' then el_value (elements d qb)
                  else el_value (elements d b))\<rparr>)\<rparr>)"
  using assms by (simp add: on_submit_def Let_def set_value_def fun_upd_restore)

text \<open>
  Claim C9. With a mode radio checked: when its value is \<^verbatim>\<open>term\<close> and the four fields
  exist (four different elements), the submit listener completes normally, and the
  document it leaves differs from the one it found only in the values of the two
  identifier fields, each of which holds the text of its query field when it was empty
  and its own text otherwise. When the value is anything else (\<^verbatim>\<open>gene\<close>, \<^verbatim>\<open>matrix\<close>), the
  listener changes nothing.
\<close>

theorem submit_fills_empty_identifiers:
  assumes "checkedMode d = Some mode"
  shows "(el_value (elements d mode) = ''term'' \<and>
          getElementById d ''term_a_id'' = Some a \<and> getElementById d ''term_b_id'' = Some b \<and>
          getElementById d ''term_a_query'' = Some qa \<and>
          getElementById d ''term_b_query'' = Some qb \<and> distinct [a, b, qa, qb] \<longrightarrow>
          on_submit d =
            Normal (d\<lparr>elements := (elements d)
              (a := (elements d a)\<lparr>el_value :=
                 (if el_value (elements d a) = '''' then el_value (elements d qa)
                  else el_value (elements d a))\<rparr>,
               b := (elements d b)\<lparr>el_value :=
                 (if el_value (elements d b) = '''' then el_value (elements d qb)
                  else el_value (elements d b))\<rparr>)\<rparr>)) \<and>
         (el_value (elements d mode) \<noteq> ''term'' \<longrightarrow> on_submit d = Normal d)"
proof (intro conjI impI)
  assume h: "el_value (elements d mode) = ''term'' \<and>
          getElementById d ''term_a_id'' = Some a \<and> getElementById d ''term_b_id'' = Some b \<and>
          getElementById d ''term_a_query'' = Some qa \<and>
          getElementById d ''term_b_query'' = Some qb \<and> distinct [a, b, qa, qb]"
  then have "el_value (elements d mode) = ''term''"
    and "getElementById d ''term_a_id'' = Some a" and "getElementById d ''term_b_id'' = Some b"
    and "getElementById d ''term_a_query'' = Some qa"
    and "getElementById d ''term_b_query'' = Some qb" and "distinct [a, b, qa, qb]"
    by blast+
  with assms show "on_submit d =
            Normal (d\<lparr>elements := (elements d)
              (a := (elements d a)\<lparr>el_value :=
                 (if el_value (elements d a) = '''' then el_value (elements d qa)
                  else el_value (elements d a))\<rparr>,
               b := (elements d b)\<lparr>el_value :=
                 (if el_value (elements d b) = '''' then el_value (elements d qb)
                  else el_value (elements d b))\<rparr>)\<rparr>)"
    by (rule on_submit_term)
next
  assume "el_value (elements d mode) \<noteq> ''term''"
  with assms show "on_submit d = Normal d"
    by (simp add: on_submit_def)
qed

theorem submit_fills_empty_identifiers_witness:
  "el_value (elements typed_page 1) = '''' \<and>
   el_value (elements (state_of (on_submit typed_page)) 1) = ''mitochondrion'' \<and>
   el_value (elements (state_of (on_submit typed_page)) 4) = ''GO:0007049'' \<and>
   \<not> throws (on_submit typed_page) \<and>
   on_submit (typed_page\<lparr>checkedMode := Some 15\<rparr>) = Normal (typed_page\<lparr>checkedMode := Some 15\<rparr>)"
proof -
  have c: "checkedMode typed_page = Some 14"
    "checkedMode (typed_page\<lparr>checkedMode := Some 15\<rparr>) = Some 15"
    by (simp_all add: typed_page_def similarity_page_def set_value_def)
  have p: "el_value (elements typed_page 14) = ''term'' \<and>
      getElementById typed_page ''term_a_id'' = Some 1 \<and>
      getElementById typed_page ''term_b_id'' = Some 4 \<and>
      getElementById typed_page ''term_a_query'' = Some 0 \<and>
      getElementById typed_page ''term_b_query'' = Some 3 \<and> distinct [1, 4, 0, 3::nat]"
    by (simp add: typed_page_def similarity_page_def set_value_def)
  have g: "el_value (elements (typed_page\<lparr>checkedMode := Some 15\<rparr>) 15) \<noteq> ''term''"
    by (simp add: typed_page_def similarity_page_def set_value_def blank_def)
  have v: "el_value (elements typed_page 1) = ''''" "el_value (elements typed_page 0) = ''mitochondrion''"
    "el_value (elements typed_page 4) = ''GO:0007049''"
    by (simp_all add: typed_page_def similarity_page_def set_value_def blank_def)
  from submit_fills_empty_identifiers [OF c(1), of 1 4 0 3]
    submit_fills_empty_identifiers [OF c(2), of 1 4 0 3] p g v
  show ?thesis by simp
qed

section \<open>Pages that lack a part\<close>

text \<open>
  Claim C7 as stated fails on a gene page that has both selects and a row but no count
  badge: \<^const>\<open>filterAnnotations\<close> sets the row and then throws a \<^verbatim>\<open>TypeError\<close>.
\<close>

theorem missing_badge_throws:
  "filteredCountBadge page_no_badge = None \<and>
   filterAnnotations page_no_badge =
     Throw TypeError
       (page_no_badge\<lparr>tableRows :=
          [\<lparr>data_aspect = Some ''BP'', data_evidence = Some ''IDA'', style_display = ''''\<rparr>]\<rparr>)"
  by (simp add: page_no_badge_def filterAnnotations_def aspectMatch_def evidenceMatch_def)

lemma filterAnnotations_no_badge:
  assumes "aspectFilter p = Some a" and "evidenceFilter p = Some e" and "filteredCountBadge p = None"
  shows "filterAnnotations p =
     Throw TypeError
       (p\<lparr>tableRows := map (\<lambda>r. r\<lparr>style_display :=
            (if row_visible a e r then '''' else ''none'')\<rparr>) (tableRows p)\<rparr>)"
proof -
  obtain rs n where f: "forEach_row a e (tableRows p) 0 = (rs, n)"
    by (cases "forEach_row a e (tableRows p) 0")
  with forEach_row_rows [of a e "tableRows p" 0]
  have "rs = map (\<lambda>r. r\<lparr>style_display := (if row_visible a e r then '''' else ''none'')\<rparr>)
      (tableRows p)"
    by simp
  with assms f show ?thesis
    by (simp add: filterAnnotations_def)
qed

lemma string_of_nat_0: "string_of_nat 0 = ''0''"
  by (simp add: string_of_nat.simps digit_char_def)

text \<open>
  Claim C7, amended. A setup function returns without registering a listener exactly
  when one of its elements is missing. The \<^verbatim>\<open>DOMContentLoaded\<close> listener returns without
  touching the document when the \<^verbatim>\<open>term-inputs\<close> or the \<^verbatim>\<open>gene-inputs\<close> container is
  missing. On a page without annotation rows, with both selects and the badge,
  \<^const>\<open>filterAnnotations\<close> completes normally and the badge reads \<^verbatim>\<open>Showing 0 terms\<close>. But
  \<^const>\<open>filterAnnotations\<close> throws a \<^verbatim>\<open>TypeError\<close> when a select is missing (the page
  untouched) or when the badge is missing (the rows already set).
\<close>

theorem absent_parts:
  "(setupTermAutocomplete q i r d = None \<longleftrightarrow>
      getElementById d q = None \<or> getElementById d i = None \<or> getElementById d r = None) \<and>
   (setupGeneAutocomplete gq gr d = None \<longleftrightarrow>
      getElementById d gq = None \<or> getElementById d gr = None) \<and>
   (getElementById d ''term-inputs'' = None \<or> getElementById d ''gene-inputs'' = None \<longrightarrow>
      onDOMContentLoaded d = Normal (None, d)) \<and>
   (aspectFilter p = Some a \<and> evidenceFilter p = Some e \<and> filteredCountBadge p = Some old \<and>
    tableRows p = [] \<longrightarrow>
      filterAnnotations p = Normal (p\<lparr>filteredCountBadge := Some ''Showing 0 terms''\<rparr>)) \<and>
   (aspectFilter p = None \<or> evidenceFilter p = None \<longrightarrow>
      filterAnnotations p = Throw TypeError p) \<and>
   (aspectFilter p = Some a \<and> evidenceFilter p = Some e \<and> filteredCountBadge p = None \<longrightarrow>
      filterAnnotations p =
        Throw TypeError
          (p\<lparr>tableRows := map (\<lambda>r. r\<lparr>style_display :=
               (if row_visible a e r then '''' else ''none'')\<rparr>) (tableRows p)\<rparr>))"
proof (intro conjI impI)
  show "setupTermAutocomplete q i r d = None \<longleftrightarrow>
      getElementById d q = None \<or> getElementById d i = None \<or> getElementById d r = None"
    by (simp add: setupTermAutocomplete_def split: option.splits)
  show "setupGeneAutocomplete gq gr d = None \<longleftrightarrow>
      getElementById d gq = None \<or> getElementById d gr = None"
    by (simp add: setupGeneAutocomplete_def split: option.splits)
  show "onDOMContentLoaded d = Normal (None, d)"
    if "getElementById d ''term-inputs'' = None \<or> getElementById d ''gene-inputs'' = None"
    using that by (auto simp add: onDOMContentLoaded_def split: option.splits)
  show "filterAnnotations p = Normal (p\<lparr>filteredCountBadge := Some ''Showing 0 terms''\<rparr>)"
    if "aspectFilter p = Some a \<and> evidenceFilter p = Some e \<and> filteredCountBadge p = Some old \<and>
        tableRows p = []"
    using that by (simp add: filterAnnotations_def string_of_nat_0)
  show "filterAnnotations p = Throw TypeError p"
    if "aspectFilter p = None \<or> evidenceFilter p = None"
    using that by (auto simp add: filterAnnotations_def split: option.splits)
  show "filterAnnotations p =
        Throw TypeError
          (p\<lparr>tableRows := map (\<lambda>r. r\<lparr>style_display :=
               (if row_visible a e r then '''' else ''none'')\<rparr>) (tableRows p)\<rparr>)"
    if "aspectFilter p = Some a \<and> evidenceFilter p = Some e \<and> filteredCountBadge p = None"
    using that by (intro filterAnnotations_no_badge) simp_all
qed

theorem absent_parts_witness:
  "setupTermAutocomplete ''term_a_query'' ''term_a_id'' ''results_a'' partial_page = None \<and>
   setupGeneAutocomplete ''gene_a_query'' ''results_gene_a'' partial_page = None \<and>
   onDOMContentLoaded partial_page = Normal (None, partial_page) \<and>
   filterAnnotations page_no_table =
     Normal (page_no_table\<lparr>filteredCountBadge := Some ''Showing 0 terms''\<rparr>) \<and>
   setupTermAutocomplete ''term_b_query'' ''term_b_id'' ''results_b'' partial_page \<noteq> None \<and>
   filterAnnotations (page_no_table\<lparr>evidenceFilter := None\<rparr>) =
     Throw TypeError (page_no_table\<lparr>evidenceFilter := None\<rparr>) \<and>
   throws (filterAnnotations (page_no_table\<lparr>filteredCountBadge := None\<rparr>))"
proof -
  have g: "getElementById partial_page ''term_a_id'' = None"
    "getElementById partial_page ''gene_a_query'' = None"
    "getElementById partial_page ''term-inputs'' = None"
    "getElementById partial_page ''term_b_query'' = Some 3"
    "getElementById partial_page ''term_b_id'' = Some 4"
    "getElementById partial_page ''results_b'' = Some 5"
    by (simp_all add: partial_page_def similarity_page_def)
  have t: "aspectFilter page_no_table = Some ''all''" "evidenceFilter page_no_table = Some ''all''"
    "filteredCountBadge page_no_table = Some ''''" "tableRows page_no_table = []"
    by (simp_all add: page_no_table_def)
  from absent_parts [of "''term_a_query''" "''term_a_id''" "''results_a''" partial_page
      "''gene_a_query''" "''results_gene_a''" page_no_table "''all''" "''all''" "''''"]
    absent_parts [of "''term_b_query''" "''term_b_id''" "''results_b''" partial_page
      "''gene_a_query''" "''results_gene_a''" page_no_table "''all''" "''all''" "''''"]
    absent_parts [of "''term_b_query''" "''term_b_id''" "''results_b''" partial_page
      "''gene_a_query''" "''results_gene_a''" "page_no_table\<lparr>evidenceFilter := None\<rparr>"
      "''all''" "''all''" "''''"]
    absent_parts [of "''term_b_query''" "''term_b_id''" "''results_b''" partial_page
      "''gene_a_query''" "''results_gene_a''" "page_no_table\<lparr>filteredCountBadge := None\<rparr>"
      "''all''" "''all''" "''''"] g t
  show ?thesis by simp
qed

end
